theory Spec2Isabelle
  imports Complex_Main "HOL-Library.Multiset"
begin

section \<open>Data model of MemoryFlipGameSDL2.cpp\<close>

text \<open>
  The C++ \<open>int\<close> values of the program (offsets, counters, indices) are modelled as
  \<open>int\<close>: every one of them stays far below \<open>2^31\<close> (coordinates are at most a few
  hundred, \<open>flipTimer\<close> is reset once it passes 40, \<open>flippedCount\<close> never passes 2),
  so no wrap-around is involved.
\<close>

record SDL_Rect =
  rect_x :: int
  rect_y :: int
  rect_w :: int
  rect_h :: int

datatype VisState = HIDDEN | FLIPPED | SOLVED

record puzzlePiece =
  srcRect :: SDL_Rect
  visState :: VisState
  id_str :: string

datatype ProgramState = STARTUP | PLAY | TRANSITION | SHUTDOWN

record SDL_MouseButtonEvent =
  btn_button :: nat
  btn_x :: int
  btn_y :: int

text \<open>
  The event that the \<open>switch (sdlEvent.type)\<close> of \<open>eventPoll\<close> sees: a quit request, a
  mouse button press, or anything else (including the case that no event was pending).
\<close>

datatype SDL_Event = SDL_QUIT | SDL_MOUSEBUTTONDOWN SDL_MouseButtonEvent | SDL_OTHER

text \<open>The module-level variables that the game logic reads and writes.\<close>

record globals =
  puzzlePiecesAll :: "puzzlePiece list"
  dstCoords :: "SDL_Rect list"
  flippedCount :: int
  flippedIndices :: "int list"
  flipTimer :: int
  programState :: ProgramState

definition puzzlePieceSize :: int where
  "puzzlePieceSize = 40"

definition puzzlePiecesTotal :: nat where
  "puzzlePiecesTotal = 100"

definition maxFlipped :: int where
  "maxFlipped = 2"

definition SDL_BUTTON_LEFT :: nat where
  "SDL_BUTTON_LEFT = 1"

text \<open>
  Value-initialised elements of the three vectors: \<open>std::vector<T> v(n)\<close> zeroes an
  \<open>SDL_Rect\<close>, and a \<open>puzzlePiece\<close> starts \<open>HIDDEN\<close> with an empty \<open>id\<close>.
\<close>

definition zero_rect :: SDL_Rect where
  "zero_rect = \<lparr>rect_x = 0, rect_y = 0, rect_w = 0, rect_h = 0\<rparr>"

definition default_piece :: puzzlePiece where
  "default_piece = \<lparr>srcRect = zero_rect, visState = HIDDEN, id_str = []\<rparr>"

text \<open>
  The board size is the compile-time constant \<open>puzzlePiecesTotal\<close>. The functions below
  take it as the parameter \<open>N\<close>, so that statements about every board size can be
  written; the shipped program is the instance \<open>N = puzzlePiecesTotal\<close>.
\<close>

definition initial_globals :: "nat \<Rightarrow> globals" where
  "initial_globals N =
     \<lparr>puzzlePiecesAll = replicate N default_piece,
      dstCoords = replicate N zero_rect,
      flippedCount = 0,
      flippedIndices = [0, 0],
      flipTimer = 0,
      programState = STARTUP\<rparr>"

section \<open>shufflePuzzlePieces\<close>

text \<open>
  \<open>std::shuffle\<close> is library code. It is modelled as the forward Fisher--Yates loop of the
  standard library: for each target position \<open>i = 1, ..., n - 1\<close> an offset in \<open>[0, i]\<close> is
  drawn from the engine and the two elements are exchanged unless the offset is the target
  itself. The engine \<open>std::default_random_engine(seed)\<close> is the stream \<open>rnd\<close>; \<open>rnd i\<close> is the
  raw value behind the draw for target \<open>i\<close>.
\<close>

definition std_swap :: "'a list \<Rightarrow> nat \<Rightarrow> nat \<Rightarrow> 'a list" where
  "std_swap xs i j = xs[i := xs ! j, j := xs ! i]"

fun shuffle_loop :: "(nat \<Rightarrow> nat) \<Rightarrow> nat \<Rightarrow> nat \<Rightarrow> 'a list \<Rightarrow> 'a list" where
  "shuffle_loop rnd target 0 xs = xs"
| "shuffle_loop rnd target (Suc remaining) xs =
     (let off = rnd target mod (target + 1)
      in shuffle_loop rnd (Suc target) remaining
           (if off \<noteq> target then std_swap xs target off else xs))"

definition std_shuffle :: "(nat \<Rightarrow> nat) \<Rightarrow> 'a list \<Rightarrow> 'a list" where
  "std_shuffle rnd xs = shuffle_loop rnd 1 (length xs - 1) xs"

definition shufflePuzzlePieces :: "(nat \<Rightarrow> nat) \<Rightarrow> globals \<Rightarrow> globals" where
  "shufflePuzzlePieces rnd s = s\<lparr>puzzlePiecesAll := std_shuffle rnd (puzzlePiecesAll s)\<rparr>"

section \<open>programStartup\<close>

text \<open>
  \<open>std::mt19937 mt\<close> is the stream \<open>mt\<close>: \<open>mt k\<close> is the raw value behind the \<open>k\<close>-th call
  \<open>dist(mt)\<close>, and the position in the stream is the state of the engine.
  \<open>std::uniform_int_distribution<int> dist(a, b)\<close> maps it into \<open>[a, b]\<close>.
\<close>

definition uniform_int_distribution :: "int \<Rightarrow> int \<Rightarrow> nat \<Rightarrow> int" where
  "uniform_int_distribution a b u = a + int (u mod nat (b - a + 1))"

fun digits :: "nat \<Rightarrow> string" where
  "digits n =
     (if n < 10 then [''0123456789'' ! n]
      else digits (n div 10) @ [''0123456789'' ! (n mod 10)])"

declare digits.simps [simp del]

definition to_string :: "int \<Rightarrow> string" where
  "to_string i = (if i < 0 then CHR ''-'' # digits (nat (- i)) else digits (nat i))"

text \<open>
  The inner loop \<open>for (int i = 0; i < 10; i++) str += std::to_string(dist(mt))\<close>, from
  engine position \<open>pos\<close>; it leaves the engine at \<open>pos + 10\<close>.
\<close>

fun id_loop :: "(nat \<Rightarrow> nat) \<Rightarrow> nat \<Rightarrow> nat \<Rightarrow> string \<Rightarrow> string" where
  "id_loop mt pos 0 str = str"
| "id_loop mt pos (Suc remaining) str =
     id_loop mt (Suc pos) remaining (str @ to_string (uniform_int_distribution 1 9 (mt pos)))"

definition gen_id :: "(nat \<Rightarrow> nat) \<Rightarrow> nat \<Rightarrow> string" where
  "gen_id mt pos = id_loop mt pos 10 []"

text \<open>
  A \<open>double\<close> assigned to a \<open>const int\<close> is truncated toward zero. \<open>sqrt\<close> is the real
  square root; for the shipped board, \<open>sqrt(100)\<close> is exactly \<open>10.0\<close>.
\<close>

definition trunc_to_int :: "real \<Rightarrow> int" where
  "trunc_to_int r = (if 0 \<le> r then \<lfloor>r\<rfloor> else \<lceil>r\<rceil>)"

definition xRowLen_src :: "nat \<Rightarrow> int" where
  "xRowLen_src N = trunc_to_int ((sqrt (real N) / 2) - 1)"

definition xRowLen_dst :: "nat \<Rightarrow> int" where
  "xRowLen_dst N = trunc_to_int (sqrt (real N) - 1)"

definition sizeHalf :: "nat \<Rightarrow> nat" where
  "sizeHalf N = N div 2"

text \<open>The loop of the block ``Set src coords'', from index \<open>rectI\<close> on.\<close>

function setSrcLoop ::
  "(nat \<Rightarrow> nat) \<Rightarrow> int \<Rightarrow> nat \<Rightarrow> nat \<Rightarrow> int \<Rightarrow> int \<Rightarrow> int \<Rightarrow> nat \<Rightarrow> puzzlePiece list
     \<Rightarrow> puzzlePiece list" where
  "setSrcLoop mt xRowLen half rectI xOffset yOffset rowCount pos ps =
     (if rectI < half then
        let p = ps ! rectI;
            p' = p\<lparr>srcRect := (srcRect p)\<lparr>rect_w := puzzlePieceSize, rect_h := puzzlePieceSize,
                                           rect_x := xOffset, rect_y := yOffset\<rparr>,
                   id_str := gen_id mt pos\<rparr>;
            ps' = ps[rectI := p']
        in if rowCount \<ge> xRowLen
           then setSrcLoop mt xRowLen half (rectI + 1) 0 (yOffset + puzzlePieceSize) 0 (pos + 10) ps'
           else setSrcLoop mt xRowLen half (rectI + 1) (xOffset + puzzlePieceSize) yOffset
                  (rowCount + 1) (pos + 10) ps'
      else ps)"
  by pat_completeness auto
termination
  by (relation "measure (\<lambda>(mt, xRowLen, half, rectI, xOffset, yOffset, rowCount, pos, ps). half - rectI)")
    auto

declare setSrcLoop.simps [simp del]

text \<open>
  \<open>std::copy(first, last, d_first)\<close> on one vector, the iterators given as indices: it
  assigns element by element, front to back, and every read sees the writes before it.
\<close>

function std_copy :: "'a list \<Rightarrow> nat \<Rightarrow> nat \<Rightarrow> nat \<Rightarrow> 'a list" where
  "std_copy xs first_i last_i d_first =
     (if first_i < last_i
      then std_copy (xs[d_first := xs ! first_i]) (first_i + 1) last_i (d_first + 1)
      else xs)"
  by pat_completeness auto
termination
  by (relation "measure (\<lambda>(xs, first_i, last_i, d_first). last_i - first_i)") auto

declare std_copy.simps [simp del]

definition xBoardOffset :: int where
  "xBoardOffset = 75"

definition yBoardOffset :: int where
  "yBoardOffset = 40"

definition betweenPiecesOffset :: int where
  "betweenPiecesOffset = 5"

text \<open>The loop \<open>for (auto& rect : dstCoords)\<close> of the block ``Set dst coords''.\<close>

fun setDstLoop :: "int \<Rightarrow> int \<Rightarrow> int \<Rightarrow> int \<Rightarrow> SDL_Rect list \<Rightarrow> SDL_Rect list" where
  "setDstLoop xRowLen xOffset yOffset rowCount [] = []"
| "setDstLoop xRowLen xOffset yOffset rowCount (rect # rects) =
     rect\<lparr>rect_w := puzzlePieceSize, rect_h := puzzlePieceSize,
          rect_x := xOffset + xBoardOffset, rect_y := yOffset + yBoardOffset\<rparr> #
     (if rowCount \<ge> xRowLen
      then setDstLoop xRowLen 0 (yOffset + puzzlePieceSize + betweenPiecesOffset) 0 rects
      else setDstLoop xRowLen (xOffset + puzzlePieceSize + betweenPiecesOffset) yOffset
             (rowCount + 1) rects)"

text \<open>
  The part of \<open>programStartup\<close> that writes the game variables, lines 203--275: the tiles
  of the first half, the copy into the second half, the slot rectangles, the shuffle. It
  runs when the calls on SDL and on the file system before it, lines 167--201, have
  returned; they are \<open>platformStartup\<close> below, and \<open>programStartup_whole\<close> is the function
  from its first line to its last.
\<close>

definition programStartup :: "nat \<Rightarrow> (nat \<Rightarrow> nat) \<Rightarrow> (nat \<Rightarrow> nat) \<Rightarrow> globals \<Rightarrow> globals" where
  "programStartup N mt rnd s =
     (let ps1 = setSrcLoop mt (xRowLen_src N) (sizeHalf N) 0 0 0 0 0 (puzzlePiecesAll s);
          ps2 = std_copy ps1 0 (sizeHalf N) (sizeHalf N);
          ds = setDstLoop (xRowLen_dst N) 0 0 0 (dstCoords s)
      in shufflePuzzlePieces rnd (s\<lparr>puzzlePiecesAll := ps2, dstCoords := ds\<rparr>))"

section \<open>The calls of programStartup on SDL and on the file system\<close>

text \<open>
  What the platform answers to the calls of lines 167--201. No call of SDL or of the image
  library throws: a call that fails returns a null pointer or an error code, and the code goes on
  with it. The constructor of \<open>directory_iterator\<close> throws a \<open>filesystem_error\<close> when the
  directory cannot be opened, and no handler catches it.
\<close>

record platform =
  create_window :: bool
  create_renderer :: bool
  load_image :: "string \<Rightarrow> bool"
  puzzles_dir :: "string list option"

text \<open>
  \<open>create_window\<close> and \<open>create_renderer\<close>: \<open>SDL_CreateWindow\<close> and \<open>SDL_CreateRenderer\<close> return an
  object. \<open>load_image path\<close>: \<open>IMG_Load\<close> returns a surface for the path. \<open>puzzles_dir\<close>: the
  file names in \<open>puzzles/\<close>, in the order of the iteration, or \<open>None\<close> when the directory
  cannot be opened.
\<close>

datatype exception = filesystem_error

text \<open>
  The smart pointers of the program; a null pointer is \<open>False\<close> or \<open>None\<close>, and a texture
  is named by the path of its image.
\<close>

record resources =
  window :: bool
  renderer :: bool
  pieceHiddenTex_ptr :: "string option"
  flippedOutlineTex_ptr :: "string option"
  puzzleTextures_vec :: "string option list"

definition initial_resources :: resources where
  "initial_resources =
     \<lparr>window = False, renderer = False, pieceHiddenTex_ptr = None,
      flippedOutlineTex_ptr = None, puzzleTextures_vec = []\<rparr>"

text \<open>
  \<open>SDL_CreateTextureFromSurface(renderer.get(), IMG_Load(path))\<close>: a texture when there is a
  renderer and the image loads, a null pointer otherwise.
\<close>

definition create_texture :: "platform \<Rightarrow> resources \<Rightarrow> string \<Rightarrow> string option" where
  "create_texture env r path = (if renderer r \<and> load_image env path then Some path else None)"

text \<open>\<open>std::string::find\<close>: the first position at which the pattern occurs, \<open>None\<close> for \<open>npos\<close>.\<close>

fun string_find :: "string \<Rightarrow> string \<Rightarrow> nat option" where
  "string_find [] pat = (if pat = [] then Some 0 else None)"
| "string_find (c # cs) pat =
     (if take (length pat) (c # cs) = pat then Some 0 else map_option Suc (string_find cs pat))"

text \<open>The loop \<open>for (auto& file : dirIter)\<close> over the entries of \<open>puzzles/\<close>.\<close>

fun puzzleTexturesLoop ::
  "platform \<Rightarrow> resources \<Rightarrow> string list \<Rightarrow> string option list \<Rightarrow> string option list" where
  "puzzleTexturesLoop env r [] texs = texs"
| "puzzleTexturesLoop env r (file # files) texs =
     (if string_find file ''.png'' \<noteq> None
      then puzzleTexturesLoop env r files (texs @ [create_texture env r (''puzzles/'' @ file)])
      else puzzleTexturesLoop env r files texs)"

definition platformStartup :: "platform \<Rightarrow> resources \<Rightarrow> exception + resources" where
  "platformStartup env r =
     (let r1 = r\<lparr>window := create_window env\<rparr>;
          r2 = r1\<lparr>renderer := (window r1 \<and> create_renderer env)\<rparr>;
          r3 = r2\<lparr>pieceHiddenTex_ptr := create_texture env r2 ''textures/hiddenStateTexture.png''\<rparr>;
          r4 = r3\<lparr>flippedOutlineTex_ptr :=
                    create_texture env r3 ''textures/flippedStateOutlineTexture.png''\<rparr>
      in case puzzles_dir env of
           None \<Rightarrow> Inl filesystem_error
         | Some files \<Rightarrow>
             Inr (r4\<lparr>puzzleTextures_vec := puzzleTexturesLoop env r4 files (puzzleTextures_vec r4)\<rparr>))"

text \<open>
  \<open>programStartup\<close> from its first line to its last: an exception of the first part leaves
  the function before any game variable is written.
\<close>

definition programStartup_whole ::
  "nat \<Rightarrow> platform \<Rightarrow> (nat \<Rightarrow> nat) \<Rightarrow> (nat \<Rightarrow> nat) \<Rightarrow> resources \<times> globals
     \<Rightarrow> exception + resources \<times> globals" where
  "programStartup_whole N env mt rnd rs =
     (case platformStartup env (fst rs) of
        Inl e \<Rightarrow> Inl e
      | Inr r \<Rightarrow> Inr (r, programStartup N mt rnd (snd rs)))"

section \<open>eventPoll\<close>

definition mouseWithinRectBound :: "SDL_MouseButtonEvent \<Rightarrow> SDL_Rect \<Rightarrow> bool" where
  "mouseWithinRectBound btn rect =
     (if btn_x btn \<ge> rect_x rect \<and>
         btn_x btn \<le> rect_x rect + rect_w rect \<and>
         btn_y btn \<ge> rect_y rect \<and>
         btn_y btn \<le> rect_y rect + rect_h rect
      then True else False)"

fun puzzleSolved_loop :: "puzzlePiece list \<Rightarrow> bool" where
  "puzzleSolved_loop [] = True"
| "puzzleSolved_loop (obj # objs) =
     (if visState obj \<noteq> SOLVED then False else puzzleSolved_loop objs)"

definition puzzleSolved :: "globals \<Rightarrow> bool" where
  "puzzleSolved s = puzzleSolved_loop (puzzlePiecesAll s)"

definition set_visState :: "puzzlePiece list \<Rightarrow> nat \<Rightarrow> VisState \<Rightarrow> puzzlePiece list" where
  "set_visState ps i v = ps[i := (ps ! i)\<lparr>visState := v\<rparr>]"

text \<open>
  The loop over the slots in the case \<open>SDL_MOUSEBUTTONDOWN\<close>, from index \<open>i\<close> on. Both
  \<open>break\<close>s leave the loop, so the first slot that contains the point and shows a hidden
  tile ends it.
\<close>

function clickLoop :: "nat \<Rightarrow> SDL_MouseButtonEvent \<Rightarrow> nat \<Rightarrow> globals \<Rightarrow> globals" where
  "clickLoop N btn i s =
     (if i < N then
        if mouseWithinRectBound btn (dstCoords s ! i) \<and>
           visState (puzzlePiecesAll s ! i) = HIDDEN
        then
          if flippedCount s < maxFlipped
          then s\<lparr>flippedIndices :=
                   (if flippedCount s = 0 then (flippedIndices s)[0 := int i]
                    else if flippedCount s = 1 then (flippedIndices s)[1 := int i]
                    else flippedIndices s),
                 puzzlePiecesAll := set_visState (puzzlePiecesAll s) i FLIPPED,
                 flippedCount := flippedCount s + 1\<rparr>
          else s
        else clickLoop N btn (i + 1) s
      else s)"
  by pat_completeness auto
termination
  by (relation "measure (\<lambda>(N, btn, i, s). N - i)") auto

declare clickLoop.simps [simp del]

text \<open>The \<open>switch (sdlEvent.type)\<close>.\<close>

definition eventSwitch :: "nat \<Rightarrow> SDL_Event \<Rightarrow> globals \<Rightarrow> globals" where
  "eventSwitch N ev s =
     (case ev of
        SDL_QUIT \<Rightarrow> s\<lparr>programState := SHUTDOWN\<rparr>
      | SDL_MOUSEBUTTONDOWN btn \<Rightarrow>
          (if btn_button btn = SDL_BUTTON_LEFT then clickLoop N btn 0 s else s)
      | SDL_OTHER \<Rightarrow> s)"

text \<open>The block \<open>if (flippedCount >= maxFlipped)\<close> that ends every call of \<open>eventPoll\<close>.\<close>

definition flipResolve :: "globals \<Rightarrow> globals" where
  "flipResolve s =
     (if flippedCount s \<ge> maxFlipped then
        let s1 = s\<lparr>flipTimer := flipTimer s + 1\<rparr>
        in if flipTimer s1 > 40 then
             let i0 = nat (flippedIndices s1 ! 0);
                 i1 = nat (flippedIndices s1 ! 1);
                 s2 = (if id_str (puzzlePiecesAll s1 ! i0) = id_str (puzzlePiecesAll s1 ! i1)
                       then
                         let s3 = s1\<lparr>puzzlePiecesAll :=
                                    set_visState (set_visState (puzzlePiecesAll s1) i0 SOLVED) i1 SOLVED\<rparr>
                         in if puzzleSolved s3 then s3\<lparr>programState := TRANSITION\<rparr> else s3
                       else
                         s1\<lparr>puzzlePiecesAll :=
                              set_visState (set_visState (puzzlePiecesAll s1) i0 HIDDEN) i1 HIDDEN\<rparr>)
             in s2\<lparr>flippedCount := 0, flipTimer := 0\<rparr>
           else s1
      else s)"

definition eventPoll :: "nat \<Rightarrow> SDL_Event \<Rightarrow> globals \<Rightarrow> globals" where
  "eventPoll N ev s = flipResolve (eventSwitch N ev s)"

section \<open>renderUpdate\<close>

datatype texture = pieceHiddenTex | puzzleTextures nat | flippedOutlineTex

text \<open>The calls made on the renderer, in order; a source rectangle \<open>NULL\<close> is \<open>None\<close>.\<close>

datatype render_call =
  SDL_RenderClear
  | SDL_RenderCopy texture "SDL_Rect option" SDL_Rect
  | SDL_RenderPresent

definition renderPiece :: "puzzlePiece \<Rightarrow> SDL_Rect \<Rightarrow> render_call list" where
  "renderPiece p dst =
     (if visState p = HIDDEN then [SDL_RenderCopy pieceHiddenTex None dst]
      else if visState p = FLIPPED
      then [SDL_RenderCopy (puzzleTextures 0) (Some (srcRect p)) dst,
            SDL_RenderCopy flippedOutlineTex None dst]
      else [])"

function renderLoop :: "nat \<Rightarrow> nat \<Rightarrow> globals \<Rightarrow> render_call list" where
  "renderLoop N rectI s =
     (if rectI < N
      then renderPiece (puzzlePiecesAll s ! rectI) (dstCoords s ! rectI) @ renderLoop N (rectI + 1) s
      else [])"
  by pat_completeness auto
termination
  by (relation "measure (\<lambda>(N, rectI, s). N - rectI)") auto

declare renderLoop.simps [simp del]

definition renderUpdate :: "nat \<Rightarrow> globals \<Rightarrow> render_call list" where
  "renderUpdate N s = SDL_RenderClear # renderLoop N 0 s @ [SDL_RenderPresent]"

section \<open>main\<close>

text \<open>
  One pass of the \<open>while\<close> loop of \<open>main\<close>, which ends in state \<open>SHUTDOWN\<close>, on the game
  variables; in state \<open>STARTUP\<close> it is the pass in which \<open>programStartup\<close> returns. The frame
  delay has no effect on the variables.
\<close>

definition main_step ::
  "nat \<Rightarrow> (nat \<Rightarrow> nat) \<Rightarrow> (nat \<Rightarrow> nat) \<Rightarrow> SDL_Event \<Rightarrow> globals \<Rightarrow> globals" where
  "main_step N mt rnd ev s =
     (case programState s of
        STARTUP \<Rightarrow> (programStartup N mt rnd s)\<lparr>programState := PLAY\<rparr>
      | PLAY \<Rightarrow> eventPoll N ev s
      | TRANSITION \<Rightarrow> s
      | SHUTDOWN \<Rightarrow> s)"

text \<open>
  The first pass of the loop, in state \<open>STARTUP\<close>, with the platform: \<open>main\<close> has no
  handler, so an exception that leaves \<open>programStartup\<close> ends the program
  (\<open>std::terminate\<close>) before \<open>programState\<close> is set to \<open>PLAY\<close>.
\<close>

definition main_startup ::
  "nat \<Rightarrow> platform \<Rightarrow> (nat \<Rightarrow> nat) \<Rightarrow> (nat \<Rightarrow> nat) \<Rightarrow> exception + resources \<times> globals" where
  "main_startup N env mt rnd =
     (case programStartup_whole N env mt rnd (initial_resources, initial_globals N) of
        Inl e \<Rightarrow> Inl e
      | Inr (r, s) \<Rightarrow> Inr (r, s\<lparr>programState := PLAY\<rparr>))"

text \<open>
  The states of a run: the state in which play starts, and every state that a call of
  \<open>eventPoll\<close> in state \<open>PLAY\<close> leads to, whatever event it sees.
\<close>

inductive reachable :: "nat \<Rightarrow> globals \<Rightarrow> bool" for N :: nat where
  start: "reachable N (main_step N mt rnd ev (initial_globals N))"
| frame: "reachable N s \<Longrightarrow> programState s = PLAY \<Longrightarrow> reachable N (eventPoll N ev s)"

section \<open>Notions used in the statements\<close>

text \<open>The number of tiles that are \<open>FLIPPED\<close>.\<close>

definition flippedTotal :: "globals \<Rightarrow> nat" where
  "flippedTotal s = length (filter (\<lambda>p. visState p = FLIPPED) (puzzlePiecesAll s))"

text \<open>
  The tile vector inside \<open>programStartup\<close>, on the value-initialised vector: after the
  loop over the first half, and after the copy.
\<close>

definition tiles_before_copy :: "nat \<Rightarrow> (nat \<Rightarrow> nat) \<Rightarrow> puzzlePiece list" where
  "tiles_before_copy N mt =
     setSrcLoop mt (xRowLen_src N) (sizeHalf N) 0 0 0 0 0 (puzzlePiecesAll (initial_globals N))"

definition tiles_after_copy :: "nat \<Rightarrow> (nat \<Rightarrow> nat) \<Rightarrow> puzzlePiece list" where
  "tiles_after_copy N mt = std_copy (tiles_before_copy N mt) 0 (sizeHalf N) (sizeHalf N)"

text \<open>The effect of the innermost branch of the click loop on slot \<open>i\<close>.\<close>

definition flip_at :: "nat \<Rightarrow> globals \<Rightarrow> globals" where
  "flip_at i s =
     s\<lparr>flippedIndices :=
         (if flippedCount s = 0 then (flippedIndices s)[0 := int i]
          else if flippedCount s = 1 then (flippedIndices s)[1 := int i]
          else flippedIndices s),
       puzzlePiecesAll := set_visState (puzzlePiecesAll s) i FLIPPED,
       flippedCount := flippedCount s + 1\<rparr>"

text \<open>
  What holds in every state of a run: the vectors keep their size and the slots their
  layout; \<open>flippedCount\<close> is 0, 1 or 2; the delay counter is at most 40 and runs only while
  two tiles are pending; the first \<open>flippedCount\<close> entries of \<open>flippedIndices\<close> are distinct
  slots of the board, and they are exactly the slots whose tile is \<open>FLIPPED\<close>.
\<close>

definition game_inv :: "nat \<Rightarrow> globals \<Rightarrow> bool" where
  "game_inv N s \<longleftrightarrow>
     length (puzzlePiecesAll s) = N
   \<and> dstCoords s = setDstLoop (xRowLen_dst N) 0 0 0 (replicate N zero_rect)
   \<and> length (flippedIndices s) = 2
   \<and> 0 \<le> flipTimer s \<and> flipTimer s \<le> 40
   \<and> 0 \<le> flippedCount s \<and> flippedCount s \<le> 2
   \<and> (flippedCount s < 2 \<longrightarrow> flipTimer s = 0)
   \<and> (1 \<le> flippedCount s \<longrightarrow> 0 \<le> flippedIndices s ! 0 \<and> nat (flippedIndices s ! 0) < N)
   \<and> (2 \<le> flippedCount s \<longrightarrow> 0 \<le> flippedIndices s ! 1 \<and> nat (flippedIndices s ! 1) < N
          \<and> flippedIndices s ! 0 \<noteq> flippedIndices s ! 1)
   \<and> (\<forall>i<N. visState (puzzlePiecesAll s ! i) = FLIPPED \<longleftrightarrow>
          (1 \<le> flippedCount s \<and> int i = flippedIndices s ! 0)
        \<or> (2 \<le> flippedCount s \<and> int i = flippedIndices s ! 1))"

section \<open>Concrete engines, events and states\<close>

text \<open>
  An engine whose every raw value is 0, so that every digit drawn by \<open>dist(mt)\<close> is 1, and a
  shuffle engine whose every raw value is 0.
\<close>

definition mt_zero :: "nat \<Rightarrow> nat" where
  "mt_zero k = 0"

definition rnd_zero :: "nat \<Rightarrow> nat" where
  "rnd_zero i = 0"


definition one_puzzle :: platform where
  "one_puzzle =
     \<lparr>create_window = True, create_renderer = True, load_image = (\<lambda>path. True),
      puzzles_dir = Some [''frog.png'', ''notes.txt'']\<rparr>"

text \<open>A press of the left mouse button at the point \<open>(px, py)\<close>.\<close>

definition left_click :: "int \<Rightarrow> int \<Rightarrow> SDL_MouseButtonEvent" where
  "left_click px py = \<lparr>btn_button = SDL_BUTTON_LEFT, btn_x = px, btn_y = py\<rparr>"

text \<open>The state in which play starts on the 100-tile board, for the engines above.\<close>

definition play_start :: globals where
  "play_start = main_step puzzlePiecesTotal mt_zero rnd_zero SDL_OTHER (initial_globals puzzlePiecesTotal)"

text \<open>
  Two states of a run on the 100-tile board: after a click into slot 0, and after a
  further click into slot 1.
\<close>

definition one_flipped :: globals where
  "one_flipped = eventPoll puzzlePiecesTotal (SDL_MOUSEBUTTONDOWN (left_click 80 45)) play_start"

definition two_flipped :: globals where
  "two_flipped = eventPoll puzzlePiecesTotal (SDL_MOUSEBUTTONDOWN (left_click 125 45)) one_flipped"

text \<open>A board on which every pair has been matched, as the last resolution leaves it.\<close>

definition solved_piece :: puzzlePiece where
  "solved_piece =
     \<lparr>srcRect = \<lparr>rect_x = 0, rect_y = 0, rect_w = 40, rect_h = 40\<rparr>,
      visState = SOLVED, id_str = ''1111111111''\<rparr>"

definition solved_board :: globals where
  "solved_board =
     \<lparr>puzzlePiecesAll = replicate puzzlePiecesTotal solved_piece,
      dstCoords = dstCoords play_start,
      flippedCount = 0,
      flippedIndices = [0, 1],
      flipTimer = 0,
      programState = TRANSITION\<rparr>"

text \<open>
  Four tiles, two pairs, the first two flipped and the delay counter at 40: the next
  call of \<open>eventPoll\<close> resolves them. In \<open>pending_match\<close> the two flipped tiles are a pair,
  in \<open>pending_mismatch\<close> they are not.
\<close>

definition tile :: "string \<Rightarrow> VisState \<Rightarrow> puzzlePiece" where
  "tile ident v = \<lparr>srcRect = zero_rect, visState = v, id_str = ident\<rparr>"

definition pending_match :: globals where
  "pending_match =
     \<lparr>puzzlePiecesAll = [tile ''12'' FLIPPED, tile ''12'' FLIPPED, tile ''34'' SOLVED, tile ''34'' SOLVED],
      dstCoords = replicate 4 zero_rect,
      flippedCount = 2,
      flippedIndices = [0, 1],
      flipTimer = 40,
      programState = PLAY\<rparr>"

definition pending_mismatch :: globals where
  "pending_mismatch =
     \<lparr>puzzlePiecesAll = [tile ''12'' FLIPPED, tile ''34'' FLIPPED, tile ''34'' HIDDEN, tile ''12'' HIDDEN],
      dstCoords = replicate 4 zero_rect,
      flippedCount = 2,
      flippedIndices = [0, 1],
      flipTimer = 40,
      programState = PLAY\<rparr>"

section \<open>Properties of the shuffle\<close>

lemma length_std_swap: "length (std_swap xs i j) = length xs"
  by (simp add: std_swap_def)

lemma mset_std_swap:
  "i < length xs \<Longrightarrow> j < length xs \<Longrightarrow> mset (std_swap xs i j) = mset xs"
  unfolding std_swap_def by (rule mset_swap)

lemma shuffle_loop_perm:
  "target + remaining = length xs \<Longrightarrow>
   mset (shuffle_loop rnd target remaining xs) = mset xs"
proof (induction remaining arbitrary: target xs)
  case 0
  show ?case by simp
next
  case (Suc remaining)
  let ?off = "rnd target mod Suc target"
  let ?ys = "if ?off \<noteq> target then std_swap xs target ?off else xs"
  have tgt: "target < length xs" using Suc.prems by simp
  have "?off < Suc target" by simp
  then have off: "?off < length xs" using tgt by linarith
  have len: "length ?ys = length xs" by (simp add: length_std_swap)
  have "mset (shuffle_loop rnd (Suc target) remaining ?ys) = mset ?ys"
    by (rule Suc.IH) (use Suc.prems len in simp)
  also have "mset ?ys = mset xs"
    using tgt off by (simp add: mset_std_swap)
  finally show ?case by (auto simp: Let_def split: if_splits)
qed

lemma mset_std_shuffle: "mset (std_shuffle rnd xs) = mset xs"
proof (cases xs)
  case Nil
  then show ?thesis by (simp add: std_shuffle_def)
next
  case (Cons a as)
  then show ?thesis
    unfolding std_shuffle_def by (intro shuffle_loop_perm) simp
qed

lemma length_std_shuffle: "length (std_shuffle rnd xs) = length xs"
  using mset_std_shuffle [of rnd xs] by (metis size_mset)

lemma set_std_shuffle: "set (std_shuffle rnd xs) = set xs"
  using mset_std_shuffle [of rnd xs] by (metis set_mset_mset)

lemma length_setDstLoop: "length (setDstLoop xRowLen xOffset yOffset rowCount rects) = length rects"
  by (induction rects arbitrary: xOffset yOffset rowCount) simp_all

lemma dstCoords_programStartup:
  "dstCoords (programStartup N mt rnd s) = setDstLoop (xRowLen_dst N) 0 0 0 (dstCoords s)"
  by (simp add: programStartup_def shufflePuzzlePieces_def Let_def)

text \<open>
  C1: \<open>shufflePuzzlePieces\<close> permutes \<open>puzzlePiecesAll\<close> only. In every state, the tiles after
  the shuffle are a permutation of the tiles before it (same multiset, same number), while
  \<open>dstCoords\<close> is the very same list, of the same length; every other variable keeps its
  value too. At the end of \<open>programStartup\<close> the slot rectangles are therefore the \<open>N\<close>
  rectangles of the grid layout, in layout order.
\<close>

theorem shuffle_permutes_tiles_only:
  "mset (puzzlePiecesAll (shufflePuzzlePieces rnd s)) = mset (puzzlePiecesAll s)
   \<and> length (puzzlePiecesAll (shufflePuzzlePieces rnd s)) = length (puzzlePiecesAll s)
   \<and> dstCoords (shufflePuzzlePieces rnd s) = dstCoords s
   \<and> length (dstCoords (shufflePuzzlePieces rnd s)) = length (dstCoords s)
   \<and> shufflePuzzlePieces rnd s = s\<lparr>puzzlePiecesAll := puzzlePiecesAll (shufflePuzzlePieces rnd s)\<rparr>
   \<and> dstCoords (programStartup N mt rnd (initial_globals N))
       = setDstLoop (xRowLen_dst N) 0 0 0 (replicate N zero_rect)
   \<and> length (dstCoords (programStartup N mt rnd (initial_globals N))) = N"
  by (simp add: shufflePuzzlePieces_def mset_std_shuffle length_std_shuffle
      dstCoords_programStartup length_setDstLoop initial_globals_def)

section \<open>The tiles that programStartup builds\<close>

lemma map_visState_update:
  "visState p' = visState (ps ! i) \<Longrightarrow> map visState (ps[i := p']) = map visState ps"
  by (cases "i < length ps") (auto intro!: nth_equalityI simp: nth_list_update)

lemma length_setSrcLoop:
  "length (setSrcLoop mt xRowLen half rectI xOffset yOffset rowCount pos ps) = length ps"
  by (induction mt xRowLen half rectI xOffset yOffset rowCount pos ps rule: setSrcLoop.induct)
    (subst setSrcLoop.simps, simp add: Let_def)

lemma visState_setSrcLoop:
  "map visState (setSrcLoop mt xRowLen half rectI xOffset yOffset rowCount pos ps) = map visState ps"
  by (induction mt xRowLen half rectI xOffset yOffset rowCount pos ps rule: setSrcLoop.induct)
    (subst setSrcLoop.simps, simp add: Let_def map_visState_update)

lemma nth_setSrcLoop_outside:
  "k < rectI \<or> half \<le> k \<Longrightarrow>
   setSrcLoop mt xRowLen half rectI xOffset yOffset rowCount pos ps ! k = ps ! k"
  by (induction mt xRowLen half rectI xOffset yOffset rowCount pos ps rule: setSrcLoop.induct)
    (subst setSrcLoop.simps, auto simp add: Let_def)

lemma id_setSrcLoop:
  "half \<le> length ps \<Longrightarrow> rectI \<le> k \<Longrightarrow> k < half \<Longrightarrow>
   id_str (setSrcLoop mt xRowLen half rectI xOffset yOffset rowCount pos ps ! k)
     = gen_id mt (pos + 10 * (k - rectI))"
proof (induction mt xRowLen half rectI xOffset yOffset rowCount pos ps rule: setSrcLoop.induct)
  case (1 mt xRowLen half rectI xOffset yOffset rowCount pos ps)
  show ?case
  proof (cases "k = rectI")
    case True
    then show ?thesis using "1.prems"
      by (subst setSrcLoop.simps) (simp add: Let_def nth_setSrcLoop_outside)
  next
    case False
    then have le: "Suc rectI \<le> k" using "1.prems" by simp
    then have pos: "pos + 10 + 10 * (k - Suc rectI) = pos + 10 * (k - rectI)"
      by simp
    show ?thesis using "1.prems" "1.IH" le
      by (subst setSrcLoop.simps) (simp add: Let_def pos)
  qed
qed

lemma length_std_copy: "length (std_copy xs f l d) = length xs"
  by (induction xs f l d rule: std_copy.induct) (subst std_copy.simps, simp)

lemma nth_std_copy:
  "l \<le> d \<Longrightarrow> d + (l - f) \<le> length xs \<Longrightarrow> k < length xs \<Longrightarrow>
   std_copy xs f l d ! k = (if d \<le> k \<and> k < d + (l - f) then xs ! (f + (k - d)) else xs ! k)"
proof (induction xs f l d arbitrary: k rule: std_copy.induct)
  case (1 xs f l d)
  show ?case
  proof (cases "f < l")
    case False
    then show ?thesis by (subst std_copy.simps) auto
  next
    case True
    let ?xs = "xs[d := xs ! f]"
    have "std_copy ?xs (f + 1) l (d + 1) ! k
          = (if d + 1 \<le> k \<and> k < d + 1 + (l - (f + 1)) then ?xs ! (f + 1 + (k - (d + 1))) else ?xs ! k)"
      using True "1.prems" by (intro "1.IH") simp_all
    then show ?thesis using True "1.prems"
      by (subst std_copy.simps) (auto simp: nth_list_update intro!: arg_cong [where f = "(!) xs"])
  qed
qed

lemma std_copy_halves:
  "2 * h \<le> length xs \<Longrightarrow> std_copy xs 0 h h = take h xs @ take h xs @ drop (2 * h) xs"
proof (rule nth_equalityI)
  assume h: "2 * h \<le> length xs"
  then have hl: "h \<le> length xs" by simp
  show "length (std_copy xs 0 h h) = length (take h xs @ take h xs @ drop (2 * h) xs)"
    using h hl by (simp add: length_std_copy min_absorb2)
  fix k assume "k < length (std_copy xs 0 h h)"
  then have k: "k < length xs" by (simp add: length_std_copy)
  show "std_copy xs 0 h h ! k = (take h xs @ take h xs @ drop (2 * h) xs) ! k"
    using h k hl by (auto simp: nth_std_copy nth_append min_def)
qed

lemma to_string_1: "to_string 1 = ''1''"
  by (simp add: to_string_def digits.simps [of "Suc 0"])

lemma draw_mt_zero: "uniform_int_distribution 1 9 (mt_zero k) = 1"
  by (simp add: uniform_int_distribution_def mt_zero_def)

lemma gen_id_mt_zero: "gen_id mt_zero pos = ''1111111111''"
  by (simp add: gen_id_def numeral_eq_Suc draw_mt_zero to_string_1)

lemma length_tiles_before_copy: "length (tiles_before_copy N mt) = N"
  by (simp add: tiles_before_copy_def length_setSrcLoop initial_globals_def)

lemma length_tiles_after_copy: "length (tiles_after_copy N mt) = N"
  by (simp add: tiles_after_copy_def length_std_copy length_tiles_before_copy)

lemma tiles_after_copy_eq:
  "tiles_after_copy N mt =
     take (sizeHalf N) (tiles_before_copy N mt) @ take (sizeHalf N) (tiles_before_copy N mt)
       @ drop (2 * sizeHalf N) (tiles_before_copy N mt)"
  unfolding tiles_after_copy_def
  by (rule std_copy_halves) (simp add: length_tiles_before_copy sizeHalf_def)

lemma puzzlePiecesAll_programStartup:
  "puzzlePiecesAll (programStartup N mt rnd (initial_globals N))
     = std_shuffle rnd (tiles_after_copy N mt)"
  by (simp add: programStartup_def shufflePuzzlePieces_def Let_def tiles_after_copy_def
      tiles_before_copy_def)

lemma id_tiles_before_copy:
  "k < sizeHalf N \<Longrightarrow> id_str (tiles_before_copy N mt ! k) = gen_id mt (10 * k)"
  unfolding tiles_before_copy_def
  using id_setSrcLoop [of "sizeHalf N" "puzzlePiecesAll (initial_globals N)" 0 k mt]
  by (simp add: initial_globals_def sizeHalf_def)

lemma tail_tiles_before_copy:
  "sizeHalf N \<le> k \<Longrightarrow> k < N \<Longrightarrow> tiles_before_copy N mt ! k = default_piece"
  unfolding tiles_before_copy_def
  by (simp add: nth_setSrcLoop_outside initial_globals_def)

lemma ids_first_half:
  "map id_str (take (sizeHalf N) (tiles_before_copy N mt))
     = map (\<lambda>k. gen_id mt (10 * k)) [0..<sizeHalf N]"
proof (rule nth_equalityI)
  have le: "sizeHalf N \<le> N" by (simp add: sizeHalf_def)
  show "length (map id_str (take (sizeHalf N) (tiles_before_copy N mt)))
        = length (map (\<lambda>k. gen_id mt (10 * k)) [0..<sizeHalf N])"
    using le by (simp add: length_tiles_before_copy)
  fix k assume "k < length (map id_str (take (sizeHalf N) (tiles_before_copy N mt)))"
  then have k: "k < sizeHalf N" by simp
  then show "map id_str (take (sizeHalf N) (tiles_before_copy N mt)) ! k
             = map (\<lambda>k. gen_id mt (10 * k)) [0..<sizeHalf N] ! k"
    using le by (simp add: length_tiles_before_copy id_tiles_before_copy)
qed

lemma twice_sizeHalf: "even N \<Longrightarrow> 2 * sizeHalf N = N"
  by (simp add: sizeHalf_def)

lemma ids_after_copy_even:
  assumes "even N"
  shows "map id_str (tiles_after_copy N mt)
     = map (\<lambda>k. gen_id mt (10 * k)) [0..<sizeHalf N] @ map (\<lambda>k. gen_id mt (10 * k)) [0..<sizeHalf N]"
proof -
  have "drop (2 * sizeHalf N) (tiles_before_copy N mt) = []"
    by (simp add: twice_sizeHalf [OF assms] length_tiles_before_copy)
  then have "tiles_after_copy N mt
             = take (sizeHalf N) (tiles_before_copy N mt) @ take (sizeHalf N) (tiles_before_copy N mt)"
    by (simp add: tiles_after_copy_eq)
  then show ?thesis
    by (simp only: map_append ids_first_half)
qed

lemma mset_map_std_shuffle: "mset (map f (std_shuffle rnd xs)) = mset (map f xs)"
  using mset_std_shuffle [of rnd xs] by (metis mset_map)

lemma mset_ids_programStartup:
  "even N \<Longrightarrow>
   mset (map id_str (puzzlePiecesAll (programStartup N mt rnd (initial_globals N))))
     = mset (map (\<lambda>k. gen_id mt (10 * k)) [0..<sizeHalf N])
       + mset (map (\<lambda>k. gen_id mt (10 * k)) [0..<sizeHalf N])"
  by (simp only: puzzlePiecesAll_programStartup mset_map_std_shuffle ids_after_copy_even mset_append)

lemma setup_pairs_when_ids_distinct:
  assumes "even N" and "distinct (map (\<lambda>k. gen_id mt (10 * k)) [0..<sizeHalf N])"
  shows "card (set (map id_str (puzzlePiecesAll (programStartup N mt rnd (initial_globals N)))))
           = N div 2"
    and "t \<in> set (map id_str (puzzlePiecesAll (programStartup N mt rnd (initial_globals N))))
         \<Longrightarrow> count (mset (map id_str (puzzlePiecesAll (programStartup N mt rnd (initial_globals N))))) t = 2"
proof -
  let ?ids = "map (\<lambda>k. gen_id mt (10 * k)) [0..<sizeHalf N]"
  let ?T = "map id_str (puzzlePiecesAll (programStartup N mt rnd (initial_globals N)))"
  have m: "mset ?T = mset ?ids + mset ?ids" by (rule mset_ids_programStartup [OF assms(1)])
  have s: "set ?T = set ?ids"
    by (metis m set_mset_mset set_mset_union sup.idem)
  have "card (set ?T) = card (set ?ids)" by (simp only: s)
  also have "\<dots> = length ?ids" by (rule distinct_card [OF assms(2)])
  also have "\<dots> = N div 2" by (simp add: sizeHalf_def)
  finally show "card (set ?T) = N div 2" .
  assume "t \<in> set ?T"
  then have "t \<in> set ?ids" by (simp only: s)
  then have "count (mset ?ids) t = 1"
    using assms(2) by (simp only: distinct_count_atmost_1 if_True)
  then show "count (mset ?T) t = 2" by (simp only: m count_union)
qed


lemma setup_half_identities_iff_distinct:
  assumes "even N"
  shows "card (set (map id_str (puzzlePiecesAll (programStartup N mt rnd (initial_globals N)))))
           = N div 2
         \<longleftrightarrow> distinct (map (\<lambda>k. gen_id mt (10 * k)) [0..<sizeHalf N])"
proof -
  let ?ids = "map (\<lambda>k. gen_id mt (10 * k)) [0..<sizeHalf N]"
  let ?T = "map id_str (puzzlePiecesAll (programStartup N mt rnd (initial_globals N)))"
  have "mset ?T = mset ?ids + mset ?ids" by (rule mset_ids_programStartup [OF assms])
  then have s: "set ?T = set ?ids"
    by (metis set_mset_mset set_mset_union sup.idem)
  have l: "length ?ids = N div 2" by (simp add: sizeHalf_def)
  show ?thesis
  proof
    assume "card (set ?T) = N div 2"
    then have "card (set ?ids) = length ?ids" by (simp only: s l)
    then show "distinct ?ids" by (rule card_distinct)
  next
    assume "distinct ?ids"
    then have "card (set ?ids) = length ?ids" by (rule distinct_card)
    then show "card (set ?T) = N div 2" by (simp only: s l)
  qed
qed

lemma set_map_const: "xs \<noteq> [] \<Longrightarrow> set (map (\<lambda>k. c) xs) = {c}"
  by (cases xs) auto

lemma sizeHalf_total: "sizeHalf puzzlePiecesTotal = 50"
  by (simp add: sizeHalf_def puzzlePiecesTotal_def)

text \<open>
  C2: after \<open>programStartup\<close> the tiles carry \<open>N / 2\<close> identities, each on exactly two
  tiles, only if the strings drawn for the first half are pairwise distinct, which the
  code does not check. With an engine whose draws repeat (here every digit drawn is 1) the
  fifty tiles of the first half all receive the identity \<open>1111111111\<close>, so the hundred
  tiles carry one identity, not fifty identities on two tiles each.
\<close>

theorem setup_ids_collide:
  "id_str ` set (puzzlePiecesAll
       (programStartup puzzlePiecesTotal mt_zero rnd_zero (initial_globals puzzlePiecesTotal)))
     = {''1111111111''}
   \<and> length (puzzlePiecesAll
       (programStartup puzzlePiecesTotal mt_zero rnd_zero (initial_globals puzzlePiecesTotal)))
     = 100
   \<and> card (id_str ` set (puzzlePiecesAll
       (programStartup puzzlePiecesTotal mt_zero rnd_zero (initial_globals puzzlePiecesTotal))))
     \<noteq> puzzlePiecesTotal div 2"
proof -
  let ?T = "puzzlePiecesAll
       (programStartup puzzlePiecesTotal mt_zero rnd_zero (initial_globals puzzlePiecesTotal))"
  let ?ids = "map (\<lambda>k. gen_id mt_zero (10 * k)) [0..<sizeHalf puzzlePiecesTotal]"
  have e: "even puzzlePiecesTotal" by (simp add: puzzlePiecesTotal_def)
  have "mset (map id_str ?T) = mset ?ids + mset ?ids"
    by (rule mset_ids_programStartup [OF e])
  then have "set (map id_str ?T) = set ?ids"
    by (metis set_mset_mset set_mset_union sup.idem)
  also have "?ids = map (\<lambda>k. ''1111111111'') [0..<sizeHalf puzzlePiecesTotal]"
    by (simp only: gen_id_mt_zero)
  also have "set \<dots> = {''1111111111''}"
    by (rule set_map_const) (simp add: sizeHalf_total)
  finally have s: "id_str ` set ?T = {''1111111111''}" by simp
  have l: "length ?T = 100"
    by (simp add: puzzlePiecesAll_programStartup length_std_shuffle length_tiles_after_copy
        puzzlePiecesTotal_def)
  have "card (id_str ` set ?T) = 1" by (simp only: s) simp
  then have c: "card (id_str ` set ?T) \<noteq> puzzlePiecesTotal div 2"
    by (simp add: puzzlePiecesTotal_def)
  show ?thesis using s l c by blast
qed

text \<open>
  C3, as stated, fails: in \<open>programStartup\<close> the copy writes the first half of the tiles over
  the second half. Before the copy tile 50 is still value-initialised (empty identity);
  after it tile 50 is a copy of tile 0. On the smallest vector, \<open>ab\<close> becomes \<open>aa\<close>.
\<close>

theorem setup_copy_changes_tiles:
  "std_copy (tiles_before_copy puzzlePiecesTotal mt_zero) 0 (sizeHalf puzzlePiecesTotal)
       (sizeHalf puzzlePiecesTotal)
     \<noteq> tiles_before_copy puzzlePiecesTotal mt_zero
   \<and> id_str (tiles_before_copy puzzlePiecesTotal mt_zero ! 50) = []
   \<and> id_str (std_copy (tiles_before_copy puzzlePiecesTotal mt_zero) 0
        (sizeHalf puzzlePiecesTotal) (sizeHalf puzzlePiecesTotal) ! 50) = ''1111111111''
   \<and> std_copy ''ab'' 0 1 1 = ''aa''"
proof -
  let ?X = "tiles_before_copy puzzlePiecesTotal mt_zero"
  let ?Y = "std_copy ?X 0 (sizeHalf puzzlePiecesTotal) (sizeHalf puzzlePiecesTotal)"
  have len: "length ?X = 100"
    by (simp add: length_tiles_before_copy puzzlePiecesTotal_def)
  have "?X ! 50 = default_piece"
    by (rule tail_tiles_before_copy) (simp_all add: sizeHalf_total, simp add: puzzlePiecesTotal_def)
  then have b: "id_str (?X ! 50) = []"
    by (simp add: default_piece_def)
  have "?Y ! 50 = ?X ! 0"
    using nth_std_copy [of 50 50 0 ?X 50] len by (simp add: sizeHalf_total)
  moreover have "id_str (?X ! 0) = gen_id mt_zero (10 * 0)"
    by (rule id_tiles_before_copy) (simp add: sizeHalf_total)
  ultimately have a: "id_str (?Y ! 50) = ''1111111111''"
    by (simp add: gen_id_mt_zero)
  have ne: "?Y \<noteq> ?X" using a b by auto
  have small: "std_copy ''ab'' 0 1 1 = ''aa''"
    by (simp add: std_copy.simps [of _ 0] std_copy.simps [of _ "Suc 0"])
  show ?thesis using ne b a small by blast
qed

text \<open>
  C3, amended: the copy leaves the first half of the tile vector as it is and makes the
  second half an element-for-element copy of the first half (a last tile beyond twice the
  half, on a board of odd size, is kept). It is not a no-op: the vector is unchanged only
  if its second half already equalled its first half.
\<close>

theorem setup_copy_duplicates_first_half:
  "std_copy ps 0 (sizeHalf (length ps)) (sizeHalf (length ps))
     = take (sizeHalf (length ps)) ps @ take (sizeHalf (length ps)) ps
         @ drop (2 * sizeHalf (length ps)) ps"
  by (rule std_copy_halves) (simp add: sizeHalf_def)

section \<open>The game variables after start-up\<close>

lemma length_programStartup:
  "length (puzzlePiecesAll (programStartup N mt rnd (initial_globals N))) = N"
  by (simp add: puzzlePiecesAll_programStartup length_std_shuffle length_tiles_after_copy)

lemma length_dst_programStartup:
  "length (dstCoords (programStartup N mt rnd (initial_globals N))) = N"
  by (simp add: dstCoords_programStartup length_setDstLoop initial_globals_def)

lemma main_step_startup:
  "main_step N mt rnd ev (initial_globals N)
     = (programStartup N mt rnd (initial_globals N))\<lparr>programState := PLAY\<rparr>"
  by (simp add: main_step_def initial_globals_def)

section \<open>The slot layout\<close>

lemma SDL_Rect_set_all:
  "r\<lparr>rect_w := a, rect_h := b, rect_x := c, rect_y := d\<rparr>
     = \<lparr>rect_x = c, rect_y = d, rect_w = a, rect_h = b\<rparr>"
  by (cases r) simp

lemma setDstLoop_nth:
  "0 \<le> rc \<Longrightarrow> rc \<le> L \<Longrightarrow> i < length rects \<Longrightarrow>
   setDstLoop L (45 * rc) yo rc rects ! i
     = \<lparr>rect_x = 75 + 45 * ((rc + int i) mod (L + 1)),
        rect_y = 40 + yo + 45 * ((rc + int i) div (L + 1)),
        rect_w = 40, rect_h = 40\<rparr>"
proof (induction rects arbitrary: rc yo i)
  case Nil
  then show ?case by simp
next
  case (Cons rect rects)
  show ?case
  proof (cases i)
    case 0
    then show ?thesis using Cons.prems
      by (simp add: SDL_Rect_set_all puzzlePieceSize_def xBoardOffset_def yBoardOffset_def)
  next
    case (Suc k)
    then have k: "k < length rects" using Cons.prems by simp
    show ?thesis
    proof (cases "rc \<ge> L")
      case True
      then have rc: "rc = L" using Cons.prems by simp
      have L: "0 \<le> L" using Cons.prems by simp
      have step: "setDstLoop L (45 * rc) yo rc (rect # rects) ! i
                  = setDstLoop L (45 * 0) (yo + 45) 0 rects ! k"
        using Suc rc by (simp add: puzzlePieceSize_def betweenPiecesOffset_def add.commute)
      have ih: "setDstLoop L (45 * 0) (yo + 45) 0 rects ! k
            = \<lparr>rect_x = 75 + 45 * ((0 + int k) mod (L + 1)),
               rect_y = 40 + (yo + 45) + 45 * ((0 + int k) div (L + 1)),
               rect_w = 40, rect_h = 40\<rparr>"
        by (rule Cons.IH) (use L k in simp_all)
      have e: "rc + int i = (L + 1) + int k" using Suc rc by simp
      have m: "(L + 1 + int k) mod (L + 1) = int k mod (L + 1)"
        by (rule mod_add_self1)
      have d: "(L + 1 + int k) div (L + 1) = int k div (L + 1) + 1"
        by (rule div_add_self1) (use L in simp)
      show ?thesis
        by (simp only: step ih e m d) simp
    next
      case False
      then have "rc + 1 \<le> L" "0 \<le> rc + 1" using Cons.prems by simp_all
      then have "setDstLoop L (45 * (rc + 1)) yo (rc + 1) rects ! k
            = \<lparr>rect_x = 75 + 45 * ((rc + 1 + int k) mod (L + 1)),
               rect_y = 40 + yo + 45 * ((rc + 1 + int k) div (L + 1)),
               rect_w = 40, rect_h = 40\<rparr>"
        using k by (intro Cons.IH) simp_all
      moreover have "rc + 1 + int k = rc + int (Suc k)" by simp
      ultimately show ?thesis using Suc False
        by (simp add: puzzlePieceSize_def betweenPiecesOffset_def algebra_simps)
    qed
  qed
qed

lemma sqrt_ge_one: "1 \<le> N \<Longrightarrow> 1 \<le> sqrt (real N)"
  by simp

lemma xRowLen_dst_nonneg: "1 \<le> N \<Longrightarrow> 0 \<le> xRowLen_dst N"
  using sqrt_ge_one [of N] by (simp add: xRowLen_dst_def trunc_to_int_def)

lemma sqrt_100: "sqrt 100 = 10"
  by (rule real_sqrt_unique) simp_all

lemma xRowLen_dst_total: "xRowLen_dst puzzlePiecesTotal = 9"
  by (simp add: xRowLen_dst_def puzzlePiecesTotal_def sqrt_100 trunc_to_int_def)

lemma xRowLen_src_total: "xRowLen_src puzzlePiecesTotal = 4"
  by (simp add: xRowLen_src_def puzzlePiecesTotal_def sqrt_100 trunc_to_int_def)

text \<open>The slot rectangles that \<open>programStartup\<close> computes for a board of \<open>N\<close> tiles.\<close>

lemma slot_nth:
  assumes "i < N"
  shows "setDstLoop (xRowLen_dst N) 0 0 0 (replicate N zero_rect) ! i
     = \<lparr>rect_x = 75 + 45 * (int i mod (xRowLen_dst N + 1)),
        rect_y = 40 + 45 * (int i div (xRowLen_dst N + 1)),
        rect_w = 40, rect_h = 40\<rparr>"
proof -
  have "0 \<le> xRowLen_dst N" using assms by (intro xRowLen_dst_nonneg) simp
  then show ?thesis
    using setDstLoop_nth [of 0 "xRowLen_dst N" i "replicate N zero_rect" 0] assms by simp
qed

lemma mouseWithinRectBound_iff:
  "mouseWithinRectBound btn rect \<longleftrightarrow>
     rect_x rect \<le> btn_x btn \<and> btn_x btn \<le> rect_x rect + rect_w rect \<and>
     rect_y rect \<le> btn_y btn \<and> btn_y btn \<le> rect_y rect + rect_h rect"
  by (simp add: mouseWithinRectBound_def)

lemma within_slot:
  assumes "i < N"
  shows "mouseWithinRectBound btn (setDstLoop (xRowLen_dst N) 0 0 0 (replicate N zero_rect) ! i)
     \<longleftrightarrow> 45 * (int i mod (xRowLen_dst N + 1)) \<le> btn_x btn - 75
         \<and> btn_x btn - 75 \<le> 45 * (int i mod (xRowLen_dst N + 1)) + 40
         \<and> 45 * (int i div (xRowLen_dst N + 1)) \<le> btn_y btn - 40
         \<and> btn_y btn - 40 \<le> 45 * (int i div (xRowLen_dst N + 1)) + 40"
  by (simp only: mouseWithinRectBound_iff slot_nth [OF assms] SDL_Rect.simps) linarith

lemma cell_unique:
  fixes a b p :: int
  assumes "45 * a \<le> p" "p \<le> 45 * a + 40" "45 * b \<le> p" "p \<le> 45 * b + 40"
  shows "a = b"
  using assms by linarith

lemma div_mod_unique:
  fixes i j m :: int
  assumes "i mod m = j mod m" "i div m = j div m"
  shows "i = j"
proof -
  have "i = i div m * m + i mod m" by simp
  also have "\<dots> = j div m * m + j mod m" by (simp only: assms)
  also have "\<dots> = j" by simp
  finally show ?thesis .
qed

lemma slots_unique:
  assumes "i < N" "j < N"
    and wi: "mouseWithinRectBound btn (setDstLoop (xRowLen_dst N) 0 0 0 (replicate N zero_rect) ! i)"
    and wj: "mouseWithinRectBound btn (setDstLoop (xRowLen_dst N) 0 0 0 (replicate N zero_rect) ! j)"
  shows "i = j"
proof -
  let ?m = "xRowLen_dst N + 1"
  note a = wi [unfolded within_slot [OF assms(1)]]
  note b = wj [unfolded within_slot [OF assms(2)]]
  have "int i mod ?m = int j mod ?m"
    using a b by (intro cell_unique [of _ "btn_x btn - 75"]) simp_all
  moreover have "int i div ?m = int j div ?m"
    using a b by (intro cell_unique [of _ "btn_y btn - 40"]) simp_all
  ultimately have "int i = int j" by (rule div_mod_unique)
  then show ?thesis by simp
qed


lemma dstCoords_play_start:
  "dstCoords play_start
     = setDstLoop (xRowLen_dst puzzlePiecesTotal) 0 0 0 (replicate puzzlePiecesTotal zero_rect)"
  by (simp add: play_start_def main_step_startup dstCoords_programStartup)
    (simp add: initial_globals_def)

text \<open>
  C10: the slot rectangles that \<open>programStartup\<close> computes are pairwise disjoint under the
  inclusive test of \<open>mouseWithinRectBound\<close>: a point that lies within slot \<open>i\<close> and within
  slot \<open>j\<close> forces \<open>i = j\<close>. So at most one slot contains a click point, and the first
  containing slot in slot order is the only one.
\<close>

theorem slots_pairwise_disjoint:
  assumes "i < N" and "j < N"
    and "mouseWithinRectBound btn (dstCoords (programStartup N mt rnd (initial_globals N)) ! i)"
    and "mouseWithinRectBound btn (dstCoords (programStartup N mt rnd (initial_globals N)) ! j)"
  shows "i = j"
  using assms by (simp only: dstCoords_programStartup) (simp add: initial_globals_def slots_unique)

lemma within_slot_11:
  "mouseWithinRectBound (left_click 130 90)
     (dstCoords (programStartup puzzlePiecesTotal mt_zero rnd_zero (initial_globals puzzlePiecesTotal)) ! 11)"
proof -
  have "(11::nat) < puzzlePiecesTotal" by (simp add: puzzlePiecesTotal_def)
  from within_slot [OF this, of "left_click 130 90"] show ?thesis
    by (simp add: dstCoords_programStartup)
      (simp add: initial_globals_def xRowLen_dst_total left_click_def)
qed

theorem slots_pairwise_disjoint_witness:
  "(11::nat) < puzzlePiecesTotal
   \<and> mouseWithinRectBound (left_click 130 90)
       (dstCoords (programStartup puzzlePiecesTotal mt_zero rnd_zero (initial_globals puzzlePiecesTotal)) ! 11)
   \<and> (11::nat) = 11"
proof -
  have lt: "(11::nat) < puzzlePiecesTotal" by (simp add: puzzlePiecesTotal_def)
  show ?thesis
    using lt within_slot_11 slots_pairwise_disjoint [OF lt lt within_slot_11 within_slot_11]
    by simp
qed

section \<open>Rendering\<close>

lemma renderLoop_concat:
  "renderLoop N rectI s
     = concat (map (\<lambda>i. renderPiece (puzzlePiecesAll s ! i) (dstCoords s ! i)) [rectI..<N])"
proof (induction N rectI s rule: renderLoop.induct)
  case (1 N rectI s)
  show ?case
  proof (cases "rectI < N")
    case True
    then show ?thesis using "1.IH"
      by (subst renderLoop.simps) (simp add: upt_conv_Cons)
  next
    case False
    then show ?thesis by (subst renderLoop.simps) simp
  qed
qed

text \<open>
  C8, as stated, fails: on a board whose tiles are all \<open>SOLVED\<close> the frame consists of the
  clear and the present alone; no tile is drawn, and in particular the atlas region of the
  solved tile in slot 0 is not copied to its slot.
\<close>

theorem solved_tiles_not_drawn:
  "renderUpdate puzzlePiecesTotal solved_board = [SDL_RenderClear, SDL_RenderPresent]
   \<and> visState (puzzlePiecesAll solved_board ! 0) = SOLVED
   \<and> SDL_RenderCopy (puzzleTextures 0) (Some (srcRect (puzzlePiecesAll solved_board ! 0)))
         (dstCoords solved_board ! 0)
       \<notin> set (renderUpdate puzzlePiecesTotal solved_board)"
proof -
  have "\<And>i. i < puzzlePiecesTotal \<Longrightarrow>
      renderPiece (puzzlePiecesAll solved_board ! i) (dstCoords solved_board ! i) = []"
    by (simp add: solved_board_def renderPiece_def solved_piece_def)
  then have "map (\<lambda>i. renderPiece (puzzlePiecesAll solved_board ! i) (dstCoords solved_board ! i))
               [0..<puzzlePiecesTotal] = map (\<lambda>i. []) [0..<puzzlePiecesTotal]"
    by (intro map_cong) simp_all
  then have r: "renderUpdate puzzlePiecesTotal solved_board = [SDL_RenderClear, SDL_RenderPresent]"
    by (simp add: renderUpdate_def renderLoop_concat)
  have v: "visState (puzzlePiecesAll solved_board ! 0) = SOLVED"
    by (simp add: solved_board_def solved_piece_def puzzlePiecesTotal_def)
  show ?thesis by (simp add: r v)
qed

text \<open>
  C8, amended: the frame is the clear, then the calls for slot 0, 1, ..., \<open>N - 1\<close> in turn,
  then the present. For a \<open>SOLVED\<close> tile the render step makes no call at all, so its slot
  shows the cleared background; a \<open>FLIPPED\<close> tile is drawn from its atlas region at the
  slot's rectangle, followed by the outline; a \<open>HIDDEN\<close> tile is drawn as the hidden
  texture at the slot's rectangle.
\<close>

theorem render_draws_hidden_and_flipped_only:
  "renderUpdate N s
     = SDL_RenderClear
       # concat (map (\<lambda>i. renderPiece (puzzlePiecesAll s ! i) (dstCoords s ! i)) [0..<N])
       @ [SDL_RenderPresent]
   \<and> renderPiece (p\<lparr>visState := SOLVED\<rparr>) dst = []
   \<and> renderPiece (p\<lparr>visState := FLIPPED\<rparr>) dst
       = [SDL_RenderCopy (puzzleTextures 0) (Some (srcRect p)) dst,
          SDL_RenderCopy flippedOutlineTex None dst]
   \<and> renderPiece (p\<lparr>visState := HIDDEN\<rparr>) dst = [SDL_RenderCopy pieceHiddenTex None dst]"
  by (simp add: renderUpdate_def renderLoop_concat renderPiece_def)

section \<open>Resolution of a pair\<close>

lemma puzzleSolved_loop_iff: "puzzleSolved_loop ps \<longleftrightarrow> list_all (\<lambda>p. visState p = SOLVED) ps"
  by (induction ps) simp_all

lemma length_set_visState: "length (set_visState ps i v) = length ps"
  by (simp add: set_visState_def)

lemma nth_set_visState:
  "k < length ps \<Longrightarrow>
   set_visState ps i v ! k = (if k = i then (ps ! k)\<lparr>visState := v\<rparr> else ps ! k)"
  by (simp add: set_visState_def nth_list_update)

lemma nth_set_visState_neq: "k \<noteq> i \<Longrightarrow> set_visState ps i v ! k = ps ! k"
  by (simp add: set_visState_def)

lemma visState_set_visState_twice:
  "i0 < length ps \<Longrightarrow> i1 < length ps \<Longrightarrow>
   visState (set_visState (set_visState ps i0 v) i1 v ! i0) = v
   \<and> visState (set_visState (set_visState ps i0 v) i1 v ! i1) = v"
  by (simp add: nth_set_visState length_set_visState)

lemma id_str_set_visState: "map id_str (set_visState ps i v) = map id_str ps"
  by (rule nth_equalityI) (simp_all add: length_set_visState nth_set_visState)

text \<open>
  C4: in a state with two pending tiles (\<open>flippedCount\<close> at \<open>maxFlipped\<close>, the two recorded
  indices on the board) whose delay counter passes 40 with this call, the closing block of
  \<open>eventPoll\<close> resolves the pair. If the identities are equal both tiles become \<open>SOLVED\<close>,
  and the program state becomes \<open>TRANSITION\<close> exactly if every tile is then \<open>SOLVED\<close>; if
  they differ both tiles become \<open>HIDDEN\<close> and the program state is kept. In both cases
  \<open>flippedCount\<close> and \<open>flipTimer\<close> are 0 afterwards, and no other tile and no identity
  changes.
\<close>

theorem resolution_of_pending_pair:
  assumes "flippedCount s \<ge> maxFlipped" and "flipTimer s + 1 > 40"
    and "i0 = nat (flippedIndices s ! 0)" and "i1 = nat (flippedIndices s ! 1)"
    and "i0 < length (puzzlePiecesAll s)" and "i1 < length (puzzlePiecesAll s)"
  shows "flippedCount (flipResolve s) = 0 \<and> flipTimer (flipResolve s) = 0
    \<and> (id_str (puzzlePiecesAll s ! i0) = id_str (puzzlePiecesAll s ! i1) \<longrightarrow>
         visState (puzzlePiecesAll (flipResolve s) ! i0) = SOLVED
       \<and> visState (puzzlePiecesAll (flipResolve s) ! i1) = SOLVED
       \<and> programState (flipResolve s)
           = (if list_all (\<lambda>p. visState p = SOLVED) (puzzlePiecesAll (flipResolve s))
              then TRANSITION else programState s))
    \<and> (id_str (puzzlePiecesAll s ! i0) \<noteq> id_str (puzzlePiecesAll s ! i1) \<longrightarrow>
         visState (puzzlePiecesAll (flipResolve s) ! i0) = HIDDEN
       \<and> visState (puzzlePiecesAll (flipResolve s) ! i1) = HIDDEN
       \<and> programState (flipResolve s) = programState s)
    \<and> (\<forall>k. k \<noteq> i0 \<and> k \<noteq> i1 \<longrightarrow> puzzlePiecesAll (flipResolve s) ! k = puzzlePiecesAll s ! k)
    \<and> map id_str (puzzlePiecesAll (flipResolve s)) = map id_str (puzzlePiecesAll s)"
proof -
  let ?ps = "puzzlePiecesAll s"
  let ?S = "set_visState (set_visState ?ps i0 SOLVED) i1 SOLVED"
  let ?H = "set_visState (set_visState ?ps i0 HIDDEN) i1 HIDDEN"
  have tiles: "puzzlePiecesAll (flipResolve s)
               = (if id_str (?ps ! i0) = id_str (?ps ! i1) then ?S else ?H)"
    using assms(1-4) by (simp add: flipResolve_def Let_def)
  have prog: "programState (flipResolve s)
              = (if id_str (?ps ! i0) = id_str (?ps ! i1)
                    \<and> list_all (\<lambda>p. visState p = SOLVED) ?S
                 then TRANSITION else programState s)"
    using assms(1-4) by (simp add: flipResolve_def Let_def puzzleSolved_def puzzleSolved_loop_iff)
  have cnt: "flippedCount (flipResolve s) = 0 \<and> flipTimer (flipResolve s) = 0"
    using assms(1-4) by (simp add: flipResolve_def Let_def)
  have other: "\<forall>k. k \<noteq> i0 \<and> k \<noteq> i1 \<longrightarrow> puzzlePiecesAll (flipResolve s) ! k = ?ps ! k"
    by (simp add: tiles nth_set_visState_neq)
  have ids: "map id_str (puzzlePiecesAll (flipResolve s)) = map id_str ?ps"
    by (simp add: tiles id_str_set_visState)
  show ?thesis
    using cnt other ids visState_set_visState_twice [OF assms(5,6)]
    by (simp add: tiles prog)
qed

theorem resolution_of_pending_pair_witness:
  "flippedCount pending_match \<ge> maxFlipped \<and> flipTimer pending_match + 1 > 40
   \<and> nat (flippedIndices pending_match ! 0) < length (puzzlePiecesAll pending_match)
   \<and> nat (flippedIndices pending_match ! 1) < length (puzzlePiecesAll pending_match)
   \<and> flippedCount (flipResolve pending_match) = 0 \<and> flipTimer (flipResolve pending_match) = 0
   \<and> visState (puzzlePiecesAll (flipResolve pending_match) ! 0) = SOLVED
   \<and> visState (puzzlePiecesAll (flipResolve pending_match) ! 1) = SOLVED
   \<and> programState (flipResolve pending_match) = TRANSITION
   \<and> flippedCount pending_mismatch \<ge> maxFlipped \<and> flipTimer pending_mismatch + 1 > 40
   \<and> flippedCount (flipResolve pending_mismatch) = 0 \<and> flipTimer (flipResolve pending_mismatch) = 0
   \<and> visState (puzzlePiecesAll (flipResolve pending_mismatch) ! 0) = HIDDEN
   \<and> visState (puzzlePiecesAll (flipResolve pending_mismatch) ! 1) = HIDDEN
   \<and> programState (flipResolve pending_mismatch) = PLAY"
  using resolution_of_pending_pair [of pending_match 0 1]
    resolution_of_pending_pair [of pending_mismatch 0 1]
  by (simp add: pending_match_def pending_mismatch_def maxFlipped_def tile_def flipResolve_def
      Let_def set_visState_def puzzleSolved_def)

section \<open>The click loop\<close>

lemma clickLoop_full: "maxFlipped \<le> flippedCount s \<Longrightarrow> clickLoop N btn i s = s"
  by (induction N btn i s rule: clickLoop.induct) (subst clickLoop.simps, simp)

lemma clickLoop_result:
  "clickLoop N btn k s = s
   \<or> (\<exists>i. k \<le> i \<and> i < N \<and> mouseWithinRectBound btn (dstCoords s ! i)
          \<and> visState (puzzlePiecesAll s ! i) = HIDDEN \<and> flippedCount s < maxFlipped
          \<and> clickLoop N btn k s = flip_at i s)"
proof (induction N btn k s rule: clickLoop.induct)
  case (1 N btn k s)
  show ?case
  proof (cases "k < N")
    case False
    then show ?thesis by (subst clickLoop.simps) simp
  next
    case True
    show ?thesis
    proof (cases "mouseWithinRectBound btn (dstCoords s ! k)
                  \<and> visState (puzzlePiecesAll s ! k) = HIDDEN")
      case hit: True
      show ?thesis
      proof (cases "flippedCount s < maxFlipped")
        case True
        then have "clickLoop N btn k s = flip_at k s"
          using hit \<open>k < N\<close> by (subst clickLoop.simps) (simp add: flip_at_def)
        then show ?thesis using hit True \<open>k < N\<close> by blast
      next
        case False
        then show ?thesis using hit \<open>k < N\<close> by (subst clickLoop.simps) simp
      qed
    next
      case miss: False
      then have eq: "clickLoop N btn k s = clickLoop N btn (k + 1) s"
        using True by (subst clickLoop.simps) auto
      from "1.IH" [OF True miss] show ?thesis
        unfolding eq by (elim disjE exE) (simp, metis Suc_eq_plus1 Suc_leD)
    qed
  qed
qed

lemma clickLoop_first:
  assumes "k \<le> i" and "i < N"
    and "mouseWithinRectBound btn (dstCoords s ! i)"
    and "visState (puzzlePiecesAll s ! i) = HIDDEN"
    and "\<And>j. j < i \<Longrightarrow> \<not> mouseWithinRectBound btn (dstCoords s ! j)"
    and "flippedCount s < maxFlipped"
  shows "clickLoop N btn k s = flip_at i s"
  using assms
proof (induction N btn k s rule: clickLoop.induct)
  case (1 N btn k s)
  show ?case
  proof (cases "k = i")
    case True
    then show ?thesis using "1.prems"
      by (subst clickLoop.simps) (simp add: flip_at_def)
  next
    case False
    then have lt: "k < i" using "1.prems" by simp
    then have miss: "\<not> (mouseWithinRectBound btn (dstCoords s ! k)
                  \<and> visState (puzzlePiecesAll s ! k) = HIDDEN)"
      using "1.prems"(5) by simp
    have kN: "k < N" using lt "1.prems" by simp
    have "clickLoop N btn k s = clickLoop N btn (k + 1) s"
      using kN miss by (subst clickLoop.simps) auto
    also have "\<dots> = flip_at i s"
      using "1.prems" lt by (intro "1.IH" [OF kN miss]) simp_all
    finally show ?thesis .
  qed
qed


section \<open>The invariant of a run\<close>

lemma visState_tiles_before_copy:
  "map visState (tiles_before_copy N mt) = replicate N HIDDEN"
  by (simp add: tiles_before_copy_def visState_setSrcLoop initial_globals_def default_piece_def)

lemma hidden_tiles_before_copy:
  assumes "p \<in> set (tiles_before_copy N mt)"
  shows "visState p = HIDDEN"
proof -
  have "visState p \<in> set (map visState (tiles_before_copy N mt))"
    using assms by simp
  then show ?thesis by (simp only: visState_tiles_before_copy) simp
qed

lemma hidden_after_programStartup:
  assumes "p \<in> set (puzzlePiecesAll (programStartup N mt rnd (initial_globals N)))"
  shows "visState p = HIDDEN"
proof -
  have "p \<in> set (tiles_after_copy N mt)"
    using assms by (simp add: puzzlePiecesAll_programStartup set_std_shuffle)
  then have "p \<in> set (tiles_before_copy N mt)"
    by (auto simp: tiles_after_copy_eq dest: in_set_takeD in_set_dropD)
  then show ?thesis by (rule hidden_tiles_before_copy)
qed

lemma programStartup_frame:
  "flippedCount (programStartup N mt rnd s) = flippedCount s"
  "flippedIndices (programStartup N mt rnd s) = flippedIndices s"
  "flipTimer (programStartup N mt rnd s) = flipTimer s"
  "programState (programStartup N mt rnd s) = programState s"
  by (simp_all add: programStartup_def shufflePuzzlePieces_def Let_def)

lemma game_inv_start: "game_inv N (main_step N mt rnd ev (initial_globals N))"
proof -
  let ?s = "programStartup N mt rnd (initial_globals N)"
  have "\<forall>i<N. visState (puzzlePiecesAll ?s ! i) \<noteq> FLIPPED"
  proof (intro allI impI)
    fix i assume "i < N"
    then have "puzzlePiecesAll ?s ! i \<in> set (puzzlePiecesAll ?s)"
      by (simp add: length_programStartup)
    then have "visState (puzzlePiecesAll ?s ! i) = HIDDEN"
      by (rule hidden_after_programStartup)
    then show "visState (puzzlePiecesAll ?s ! i) \<noteq> FLIPPED" by simp
  qed
  moreover have "flippedCount ?s = 0" "flippedIndices ?s = [0, 0]" "flipTimer ?s = 0"
    by (simp_all add: programStartup_frame initial_globals_def)
  moreover have "dstCoords ?s = setDstLoop (xRowLen_dst N) 0 0 0 (replicate N zero_rect)"
    by (simp add: dstCoords_programStartup) (simp add: initial_globals_def)
  ultimately show ?thesis
    by (simp add: main_step_startup game_inv_def length_programStartup)
qed

lemma game_inv_programState:
  "game_inv N s \<Longrightarrow> game_inv N (s\<lparr>programState := v\<rparr>)"
  by (simp add: game_inv_def)

lemma game_inv_flip_at:
  assumes inv: "game_inv N s" and i: "i < N"
    and hid: "visState (puzzlePiecesAll s ! i) = HIDDEN"
    and cnt: "flippedCount s < maxFlipped"
  shows "game_inv N (flip_at i s)"
proof -
  have len: "length (puzzlePiecesAll s) = N" "length (flippedIndices s) = 2"
    using inv by (simp_all add: game_inv_def)
  have tm: "flipTimer s = 0" using inv cnt by (simp add: game_inv_def maxFlipped_def)
  have vis: "\<And>k. k < N \<Longrightarrow> visState (set_visState (puzzlePiecesAll s) i FLIPPED ! k) = FLIPPED
               \<longleftrightarrow> k = i \<or> visState (puzzlePiecesAll s ! k) = FLIPPED"
    using len by (simp add: nth_set_visState)
  have "flippedCount s = 0 \<or> flippedCount s = 1"
    using inv cnt by (auto simp: game_inv_def maxFlipped_def)
  then show ?thesis
  proof
    assume c: "flippedCount s = 0"
    then have none: "\<And>k. k < N \<Longrightarrow> visState (puzzlePiecesAll s ! k) \<noteq> FLIPPED"
      using inv by (simp add: game_inv_def)
    show ?thesis
      using inv i len tm c none
      by (simp add: game_inv_def flip_at_def length_set_visState vis)
  next
    assume c: "flippedCount s = 1"
    then have one: "\<And>k. k < N \<Longrightarrow> visState (puzzlePiecesAll s ! k) = FLIPPED
                       \<longleftrightarrow> int k = flippedIndices s ! 0"
      using inv by (simp add: game_inv_def)
    have a: "0 \<le> flippedIndices s ! 0" "nat (flippedIndices s ! 0) < N"
      using inv c by (simp_all add: game_inv_def)
    have ne: "flippedIndices s ! 0 \<noteq> int i"
      using one [OF i] hid by auto
    show ?thesis
      using inv i len tm c a ne
      by (auto simp: game_inv_def flip_at_def length_set_visState vis one)
  qed
qed


lemma game_inv_eventSwitch:
  assumes "game_inv N s"
  shows "game_inv N (eventSwitch N ev s)"
proof (cases ev)
  case SDL_QUIT
  then show ?thesis using assms by (simp add: eventSwitch_def game_inv_programState)
next
  case SDL_OTHER
  then show ?thesis using assms by (simp add: eventSwitch_def)
next
  case (SDL_MOUSEBUTTONDOWN btn)
  have "game_inv N (clickLoop N btn 0 s)"
    using clickLoop_result [of N btn 0 s] assms by (auto intro: game_inv_flip_at)
  then show ?thesis using assms SDL_MOUSEBUTTONDOWN by (simp add: eventSwitch_def)
qed

lemma flipResolve_waiting:
  "flippedCount s < maxFlipped \<Longrightarrow> flipResolve s = s"
  "maxFlipped \<le> flippedCount s \<Longrightarrow> flipTimer s < 40 \<Longrightarrow>
     flipResolve s = s\<lparr>flipTimer := flipTimer s + 1\<rparr>"
  by (simp_all add: flipResolve_def Let_def)

lemma game_inv_flipResolve:
  assumes inv: "game_inv N s"
  shows "game_inv N (flipResolve s)"
proof -
  consider (idle) "flippedCount s < maxFlipped"
    | (wait) "maxFlipped \<le> flippedCount s" "flipTimer s < 40"
    | (resolve) "maxFlipped \<le> flippedCount s" "40 < flipTimer s + 1"
    by linarith
  then show ?thesis
  proof cases
    case idle
    then show ?thesis using inv by (simp add: flipResolve_waiting)
  next
    case wait
    then show ?thesis using inv
      by (simp add: flipResolve_waiting) (simp add: game_inv_def maxFlipped_def)
  next
    case resolve
    define i0 where "i0 = nat (flippedIndices s ! 0)"
    define i1 where "i1 = nat (flippedIndices s ! 1)"
    have c2: "flippedCount s = 2" using inv resolve by (simp add: game_inv_def maxFlipped_def)
    have b: "i0 < length (puzzlePiecesAll s)" "i1 < length (puzzlePiecesAll s)"
      using inv c2 by (simp_all add: game_inv_def i0_def i1_def)
    have len: "length (puzzlePiecesAll s) = N" using inv by (simp add: game_inv_def)
    have fl: "\<And>k. k < N \<Longrightarrow> visState (puzzlePiecesAll s ! k) = FLIPPED \<Longrightarrow> k = i0 \<or> k = i1"
      using inv c2 by (auto simp: game_inv_def i0_def i1_def)
    have tiles: "puzzlePiecesAll (flipResolve s)
          = (if id_str (puzzlePiecesAll s ! i0) = id_str (puzzlePiecesAll s ! i1)
             then set_visState (set_visState (puzzlePiecesAll s) i0 SOLVED) i1 SOLVED
             else set_visState (set_visState (puzzlePiecesAll s) i0 HIDDEN) i1 HIDDEN)"
      using resolve by (simp add: flipResolve_def Let_def i0_def i1_def)
    have rest: "flippedCount (flipResolve s) = 0" "flipTimer (flipResolve s) = 0"
      "dstCoords (flipResolve s) = dstCoords s" "flippedIndices (flipResolve s) = flippedIndices s"
      using resolve by (simp_all add: flipResolve_def Let_def)
    have "\<And>k. k < N \<Longrightarrow> visState (puzzlePiecesAll (flipResolve s) ! k) \<noteq> FLIPPED"
      using fl b len by (auto simp: tiles nth_set_visState length_set_visState)
    then show ?thesis
      using inv by (simp add: game_inv_def rest) (simp add: tiles length_set_visState)
  qed
qed

lemma game_inv_eventPoll: "game_inv N s \<Longrightarrow> game_inv N (eventPoll N ev s)"
  by (simp add: eventPoll_def game_inv_eventSwitch game_inv_flipResolve)

lemma reachable_game_inv: "reachable N s \<Longrightarrow> game_inv N s"
  by (induction rule: reachable.induct) (simp_all add: game_inv_start game_inv_eventPoll)


lemma flipped_slots:
  assumes "game_inv N s"
  shows "{i. i < length (puzzlePiecesAll s) \<and> visState (puzzlePiecesAll s ! i) = FLIPPED}
         = (if flippedCount s = 0 then {}
            else if flippedCount s = 1 then {nat (flippedIndices s ! 0)}
            else {nat (flippedIndices s ! 0), nat (flippedIndices s ! 1)})"
  using assms by (auto simp: game_inv_def)

lemma flippedTotal_game_inv:
  assumes "game_inv N s"
  shows "flippedTotal s = nat (flippedCount s)"
proof -
  have c: "flippedCount s = 0 \<or> flippedCount s = 1 \<or> flippedCount s = 2"
    using assms by (auto simp: game_inv_def)
  have ne: "flippedCount s = 2 \<Longrightarrow> nat (flippedIndices s ! 0) \<noteq> nat (flippedIndices s ! 1)"
    using assms by (auto simp: game_inv_def)
  have "flippedTotal s
        = card {i. i < length (puzzlePiecesAll s) \<and> visState (puzzlePiecesAll s ! i) = FLIPPED}"
    by (simp add: flippedTotal_def length_filter_conv_card)
  then show ?thesis
    using c ne by (auto simp: flipped_slots [OF assms])
qed

text \<open>
  C5: in every state of a run, from the state in which play starts through any sequence of
  calls of \<open>eventPoll\<close> on any events, at most two tiles are \<open>FLIPPED\<close>; their number is
  \<open>flippedCount\<close>.
\<close>

theorem at_most_two_flipped:
  assumes "reachable N s"
  shows "flippedTotal s \<le> 2 \<and> int (flippedTotal s) = flippedCount s"
proof -
  have inv: "game_inv N s" using assms by (rule reachable_game_inv)
  then have "0 \<le> flippedCount s" "flippedCount s \<le> 2" by (simp_all add: game_inv_def)
  then show ?thesis by (simp add: flippedTotal_game_inv [OF inv])
qed

text \<open>
  C6: in a state of a run in which two tiles are flipped and the delay counter is below
  40, a click on a slot whose tile is \<open>HIDDEN\<close> changes nothing: the \<open>switch\<close> leaves the
  state as it is, and after the whole call of \<open>eventPoll\<close> every tile has the
  \<open>visState\<close> it had, so still exactly two tiles are flipped.
\<close>

theorem click_ignored_while_two_pending:
  assumes "reachable N s" and "flippedTotal s = 2" and "flipTimer s < 40"
    and "i < N" and "mouseWithinRectBound btn (dstCoords s ! i)"
    and "visState (puzzlePiecesAll s ! i) = HIDDEN"
  shows "eventSwitch N (SDL_MOUSEBUTTONDOWN btn) s = s
    \<and> map visState (puzzlePiecesAll (eventPoll N (SDL_MOUSEBUTTONDOWN btn) s))
        = map visState (puzzlePiecesAll s)
    \<and> flippedTotal (eventPoll N (SDL_MOUSEBUTTONDOWN btn) s) = 2"
proof -
  have inv: "game_inv N s" using assms(1) by (rule reachable_game_inv)
  have "nat (flippedCount s) = 2" using flippedTotal_game_inv [OF inv] assms(2) by simp
  then have full: "maxFlipped \<le> flippedCount s" by (simp add: maxFlipped_def)
  have sw: "eventSwitch N (SDL_MOUSEBUTTONDOWN btn) s = s"
    by (simp add: eventSwitch_def clickLoop_full [OF full])
  have "eventPoll N (SDL_MOUSEBUTTONDOWN btn) s = s\<lparr>flipTimer := flipTimer s + 1\<rparr>"
    by (simp add: eventPoll_def sw flipResolve_waiting(2) [OF full assms(3)])
  then show ?thesis using sw assms(2) by (simp add: flippedTotal_def)
qed

text \<open>
  C7: in a state of a run, a click on a point within a slot whose tile is \<open>SOLVED\<close> or
  \<open>FLIPPED\<close> is a silent no-op: the \<open>switch\<close> leaves the whole state, and so every tile's
  \<open>visState\<close>, as it is, and the call of \<open>eventPoll\<close> ends in the state in which it ends
  when no event is pending.
\<close>

theorem click_on_revealed_tile_is_noop:
  assumes "reachable N s" and "i < N" and "mouseWithinRectBound btn (dstCoords s ! i)"
    and "visState (puzzlePiecesAll s ! i) = SOLVED \<or> visState (puzzlePiecesAll s ! i) = FLIPPED"
  shows "eventSwitch N (SDL_MOUSEBUTTONDOWN btn) s = s
    \<and> map visState (puzzlePiecesAll (eventSwitch N (SDL_MOUSEBUTTONDOWN btn) s))
        = map visState (puzzlePiecesAll s)
    \<and> eventPoll N (SDL_MOUSEBUTTONDOWN btn) s = eventPoll N SDL_OTHER s"
proof -
  have inv: "game_inv N s" using assms(1) by (rule reachable_game_inv)
  then have dst: "dstCoords s = setDstLoop (xRowLen_dst N) 0 0 0 (replicate N zero_rect)"
    by (simp add: game_inv_def)
  have "clickLoop N btn 0 s = s"
  proof (rule ccontr)
    assume "clickLoop N btn 0 s \<noteq> s"
    then obtain j where j: "j < N" "mouseWithinRectBound btn (dstCoords s ! j)"
        "visState (puzzlePiecesAll s ! j) = HIDDEN"
      using clickLoop_result [of N btn 0 s] by blast
    have "i = j"
      using assms(2) j(1) assms(3) j(2) unfolding dst by (rule slots_unique)
    then show False using assms(4) j(3) by simp
  qed
  then have sw: "eventSwitch N (SDL_MOUSEBUTTONDOWN btn) s = s"
    by (simp add: eventSwitch_def)
  show ?thesis by (simp add: sw eventPoll_def) (simp add: eventSwitch_def)
qed


section \<open>A run on the 100-tile board\<close>

lemma eventSwitch_click_hidden:
  assumes inv: "game_inv N s" and i: "i < N"
    and w: "mouseWithinRectBound btn (dstCoords s ! i)"
    and hid: "visState (puzzlePiecesAll s ! i) = HIDDEN"
    and cnt: "flippedCount s < maxFlipped"
    and left: "btn_button btn = SDL_BUTTON_LEFT"
  shows "eventSwitch N (SDL_MOUSEBUTTONDOWN btn) s = flip_at i s"
proof -
  have dst: "dstCoords s = setDstLoop (xRowLen_dst N) 0 0 0 (replicate N zero_rect)"
    using inv by (simp add: game_inv_def)
  have "\<not> mouseWithinRectBound btn (dstCoords s ! j)" if "j < i" for j
  proof
    assume "mouseWithinRectBound btn (dstCoords s ! j)"
    moreover have "j < N" using that i by simp
    ultimately have "j = i" using i w unfolding dst by (intro slots_unique [of j N i btn])
    then show False using that by simp
  qed
  then have "clickLoop N btn 0 s = flip_at i s"
    using i w hid cnt by (intro clickLoop_first) simp_all
  then show ?thesis using left by (simp add: eventSwitch_def)
qed

lemma play_start_facts:
  "game_inv puzzlePiecesTotal play_start"
  "reachable puzzlePiecesTotal play_start"
  "programState play_start = PLAY"
  "flippedCount play_start = 0"
  "flipTimer play_start = 0"
proof -
  show "game_inv puzzlePiecesTotal play_start"
    unfolding play_start_def by (rule game_inv_start)
  show "reachable puzzlePiecesTotal play_start"
    unfolding play_start_def by (rule reachable.start)
  show "programState play_start = PLAY"
    by (simp add: play_start_def main_step_startup)
  show "flippedCount play_start = 0"
    by (simp add: play_start_def main_step_startup programStartup_frame)
      (simp add: initial_globals_def)
  show "flipTimer play_start = 0"
    by (simp add: play_start_def main_step_startup programStartup_frame)
      (simp add: initial_globals_def)
qed

lemma play_start_hidden:
  assumes "i < puzzlePiecesTotal"
  shows "visState (puzzlePiecesAll play_start ! i) = HIDDEN"
proof -
  let ?s = "programStartup puzzlePiecesTotal mt_zero rnd_zero (initial_globals puzzlePiecesTotal)"
  have "puzzlePiecesAll ?s ! i \<in> set (puzzlePiecesAll ?s)"
    using assms by (simp add: length_programStartup)
  then have "visState (puzzlePiecesAll ?s ! i) = HIDDEN"
    by (rule hidden_after_programStartup)
  then show ?thesis by (simp add: play_start_def main_step_startup)
qed

lemma within_slot_total:
  assumes "game_inv puzzlePiecesTotal s" and "i < puzzlePiecesTotal"
  shows "mouseWithinRectBound btn (dstCoords s ! i)
     \<longleftrightarrow> 45 * (int i mod 10) \<le> btn_x btn - 75 \<and> btn_x btn - 75 \<le> 45 * (int i mod 10) + 40
         \<and> 45 * (int i div 10) \<le> btn_y btn - 40 \<and> btn_y btn - 40 \<le> 45 * (int i div 10) + 40"
proof -
  have "dstCoords s
        = setDstLoop (xRowLen_dst puzzlePiecesTotal) 0 0 0 (replicate puzzlePiecesTotal zero_rect)"
    using assms(1) by (simp add: game_inv_def)
  then show ?thesis
    using within_slot [OF assms(2), of btn] by (simp add: xRowLen_dst_total)
qed

lemma one_flipped_eq: "one_flipped = flip_at 0 play_start"
proof -
  have i: "(0::nat) < puzzlePiecesTotal" by (simp add: puzzlePiecesTotal_def)
  have "eventSwitch puzzlePiecesTotal (SDL_MOUSEBUTTONDOWN (left_click 80 45)) play_start
        = flip_at 0 play_start"
    using play_start_facts(1) i
  proof (rule eventSwitch_click_hidden)
    show "mouseWithinRectBound (left_click 80 45) (dstCoords play_start ! 0)"
      using within_slot_total [OF play_start_facts(1) i, of "left_click 80 45"] by (simp add: left_click_def)
    show "visState (puzzlePiecesAll play_start ! 0) = HIDDEN"
      by (rule play_start_hidden [OF i])
    show "flippedCount play_start < maxFlipped"
      by (simp add: play_start_facts maxFlipped_def)
    show "btn_button (left_click 80 45) = SDL_BUTTON_LEFT"
      by (simp add: left_click_def)
  qed
  then show ?thesis
    by (simp add: one_flipped_def eventPoll_def)
      (simp add: flipResolve_waiting(1) flip_at_def play_start_facts maxFlipped_def)
qed

lemma one_flipped_facts:
  "game_inv puzzlePiecesTotal one_flipped"
  "reachable puzzlePiecesTotal one_flipped"
  "programState one_flipped = PLAY"
  "flippedCount one_flipped = 1"
  "flipTimer one_flipped = 0"
  "puzzlePiecesAll one_flipped = set_visState (puzzlePiecesAll play_start) 0 FLIPPED"
proof -
  show r: "reachable puzzlePiecesTotal one_flipped"
    unfolding one_flipped_def by (rule reachable.frame) (rule play_start_facts)+
  then show "game_inv puzzlePiecesTotal one_flipped" by (rule reachable_game_inv)
qed (simp_all add: one_flipped_eq flip_at_def play_start_facts)

lemma length_play_start: "length (puzzlePiecesAll play_start) = puzzlePiecesTotal"
  using play_start_facts(1) by (simp add: game_inv_def)

lemma one_flipped_vis:
  "i < puzzlePiecesTotal \<Longrightarrow>
   visState (puzzlePiecesAll one_flipped ! i) = (if i = 0 then FLIPPED else HIDDEN)"
  by (simp add: one_flipped_facts(6) nth_set_visState length_play_start play_start_hidden)

lemma two_flipped_eq: "two_flipped = (flip_at 1 one_flipped)\<lparr>flipTimer := 1\<rparr>"
proof -
  have i: "(1::nat) < puzzlePiecesTotal" by (simp add: puzzlePiecesTotal_def)
  have "eventSwitch puzzlePiecesTotal (SDL_MOUSEBUTTONDOWN (left_click 125 45)) one_flipped
        = flip_at 1 one_flipped"
    using one_flipped_facts(1) i
  proof (rule eventSwitch_click_hidden)
    show "mouseWithinRectBound (left_click 125 45) (dstCoords one_flipped ! 1)"
      using within_slot_total [OF one_flipped_facts(1) i, of "left_click 125 45"] by (simp add: left_click_def)
    show "visState (puzzlePiecesAll one_flipped ! 1) = HIDDEN"
      using one_flipped_vis [OF i] by simp
    show "flippedCount one_flipped < maxFlipped"
      by (simp add: one_flipped_facts maxFlipped_def)
    show "btn_button (left_click 125 45) = SDL_BUTTON_LEFT"
      by (simp add: left_click_def)
  qed
  moreover have "flipResolve (flip_at 1 one_flipped) = (flip_at 1 one_flipped)\<lparr>flipTimer := 1\<rparr>"
    by (subst flipResolve_waiting(2))
      (simp_all add: flip_at_def one_flipped_facts maxFlipped_def)
  ultimately show ?thesis
    by (simp add: two_flipped_def eventPoll_def)
qed

lemma two_flipped_facts:
  "game_inv puzzlePiecesTotal two_flipped"
  "reachable puzzlePiecesTotal two_flipped"
  "programState two_flipped = PLAY"
  "flippedCount two_flipped = 2"
  "flipTimer two_flipped = 1"
  "puzzlePiecesAll two_flipped = set_visState (puzzlePiecesAll one_flipped) 1 FLIPPED"
proof -
  show r: "reachable puzzlePiecesTotal two_flipped"
    unfolding two_flipped_def by (rule reachable.frame) (rule one_flipped_facts)+
  then show "game_inv puzzlePiecesTotal two_flipped" by (rule reachable_game_inv)
qed (simp_all add: two_flipped_eq flip_at_def one_flipped_facts)

lemma two_flipped_vis:
  "i < puzzlePiecesTotal \<Longrightarrow>
   visState (puzzlePiecesAll two_flipped ! i) = (if i = 0 \<or> i = 1 then FLIPPED else HIDDEN)"
  using one_flipped_facts(1)
  by (simp add: two_flipped_facts(6) nth_set_visState one_flipped_vis game_inv_def)

theorem at_most_two_flipped_witness:
  "reachable puzzlePiecesTotal two_flipped
   \<and> flippedTotal two_flipped \<le> 2 \<and> int (flippedTotal two_flipped) = flippedCount two_flipped
   \<and> flippedCount two_flipped = 2"
  using at_most_two_flipped [OF two_flipped_facts(2)] two_flipped_facts(2,4) by simp

theorem click_ignored_while_two_pending_witness:
  "reachable puzzlePiecesTotal two_flipped \<and> flippedTotal two_flipped = 2
   \<and> flipTimer two_flipped < 40 \<and> (2::nat) < puzzlePiecesTotal
   \<and> mouseWithinRectBound (left_click 170 45) (dstCoords two_flipped ! 2)
   \<and> visState (puzzlePiecesAll two_flipped ! 2) = HIDDEN
   \<and> eventSwitch puzzlePiecesTotal (SDL_MOUSEBUTTONDOWN (left_click 170 45)) two_flipped = two_flipped
   \<and> map visState (puzzlePiecesAll
         (eventPoll puzzlePiecesTotal (SDL_MOUSEBUTTONDOWN (left_click 170 45)) two_flipped))
       = map visState (puzzlePiecesAll two_flipped)
   \<and> flippedTotal (eventPoll puzzlePiecesTotal (SDL_MOUSEBUTTONDOWN (left_click 170 45)) two_flipped) = 2"
proof -
  have i: "(2::nat) < puzzlePiecesTotal" by (simp add: puzzlePiecesTotal_def)
  have t: "flippedTotal two_flipped = 2"
    by (simp add: flippedTotal_game_inv [OF two_flipped_facts(1)] two_flipped_facts(4))
  have tm: "flipTimer two_flipped < 40" by (simp add: two_flipped_facts(5))
  have w: "mouseWithinRectBound (left_click 170 45) (dstCoords two_flipped ! 2)"
    using within_slot_total [OF two_flipped_facts(1) i, of "left_click 170 45"] by (simp add: left_click_def)
  have h: "visState (puzzlePiecesAll two_flipped ! 2) = HIDDEN"
    by (simp add: two_flipped_vis [OF i])
  show ?thesis
    using click_ignored_while_two_pending [OF two_flipped_facts(2) t tm i w h]
      two_flipped_facts(2) t tm i w h
    by simp
qed

theorem click_on_revealed_tile_is_noop_witness:
  "reachable puzzlePiecesTotal one_flipped \<and> (0::nat) < puzzlePiecesTotal
   \<and> mouseWithinRectBound (left_click 80 45) (dstCoords one_flipped ! 0)
   \<and> visState (puzzlePiecesAll one_flipped ! 0) = FLIPPED
   \<and> eventSwitch puzzlePiecesTotal (SDL_MOUSEBUTTONDOWN (left_click 80 45)) one_flipped = one_flipped
   \<and> map visState (puzzlePiecesAll
         (eventSwitch puzzlePiecesTotal (SDL_MOUSEBUTTONDOWN (left_click 80 45)) one_flipped))
       = map visState (puzzlePiecesAll one_flipped)
   \<and> eventPoll puzzlePiecesTotal (SDL_MOUSEBUTTONDOWN (left_click 80 45)) one_flipped
       = eventPoll puzzlePiecesTotal SDL_OTHER one_flipped"
proof -
  have i: "(0::nat) < puzzlePiecesTotal" by (simp add: puzzlePiecesTotal_def)
  have w: "mouseWithinRectBound (left_click 80 45) (dstCoords one_flipped ! 0)"
    using within_slot_total [OF one_flipped_facts(1) i, of "left_click 80 45"] by (simp add: left_click_def)
  have f: "visState (puzzlePiecesAll one_flipped ! 0) = FLIPPED"
    by (simp add: one_flipped_vis [OF i])
  then have sf: "visState (puzzlePiecesAll one_flipped ! 0) = SOLVED
                 \<or> visState (puzzlePiecesAll one_flipped ! 0) = FLIPPED" by simp
  show ?thesis
    using click_on_revealed_tile_is_noop [OF one_flipped_facts(2) i w sf]
      one_flipped_facts(2) i w f
    by simp
qed

section \<open>Start-up with the platform\<close>

lemma platformStartup_outcome:
  "(platformStartup env r = Inl filesystem_error) = (puzzles_dir env = None)"
  "(\<exists>r'. platformStartup env r = Inr r') = (puzzles_dir env \<noteq> None)"
  by (auto simp: platformStartup_def Let_def split: option.splits)





lemma startup_with_one_puzzle:
  "main_startup puzzlePiecesTotal one_puzzle mt_zero rnd_zero
     = Inr (\<lparr>window = True, renderer = True,
              pieceHiddenTex_ptr = Some ''textures/hiddenStateTexture.png'',
              flippedOutlineTex_ptr = Some ''textures/flippedStateOutlineTexture.png'',
              puzzleTextures_vec = [Some ''puzzles/frog.png'']\<rparr>,
            play_start)"
  by (simp add: main_startup_def programStartup_whole_def platformStartup_def Let_def
      one_puzzle_def initial_resources_def create_texture_def play_start_def main_step_startup)



end
